theory Spec2Isabelle
  imports Main "HOL-Library.Signed_Division"
begin

section \<open>Values, field sets and the logging backend\<close>

text \<open>
  A Go \<^verbatim>\<open>interface{}\<close> value, as far as the package stores one in a field set.
  \<open>VNil\<close> is the nil interface, \<open>VFunc\<close> a function value (the request's
  \<^verbatim>\<open>r.URL.Query\<close> is stored as a method value, not called), \<open>VHeader\<close> an
  \<^verbatim>\<open>http.Header\<close> and \<open>VFields\<close> a nested \<^verbatim>\<open>map[string]interface{}\<close>.
\<close>

datatype val =
    VNil
  | VBool bool
  | VInt int
  | VString string
  | VStrings "string list"
  | VHeader "string \<Rightarrow> string list option"
  | VFunc
  | VFields "string \<Rightarrow> val option"

type_synonym Fields = "string \<rightharpoonup> val"

text \<open>
  The two-value lookup \<^verbatim>\<open>_, ok := m[k]\<close> of a Go map, and the comparison of an
  interface value with nil.
\<close>

definition has_key :: "Fields \<Rightarrow> string \<Rightarrow> bool" where
  "has_key m k = (case m k of None \<Rightarrow> False | Some v \<Rightarrow> True)"

fun is_nil :: "val \<Rightarrow> bool" where
  "is_nil VNil = True"
| "is_nil v = False"

text \<open>
  A Go \<^verbatim>\<open>error\<close>: \<open>None\<close> is nil, \<open>Some m\<close> an error whose \<^verbatim>\<open>Error()\<close> is \<open>m\<close>.
  A run-time panic is a value of its own, so that a call that panics is told apart from
  a call that returns an error.
\<close>

type_synonym error = "string option"

datatype panic = NilPointerDereference

text \<open>
  The part of logrus the package uses. A \<^verbatim>\<open>*logrus.Logger\<close> is a pointer (\<open>None\<close>
  is nil) to a formatter and a list of hooks; an \<^verbatim>\<open>Entry\<close> carries a field set
  \<open>Data\<close>. \<^verbatim>\<open>WithFields\<close> copies the entry's fields into a fresh map and then the
  new ones over them, so a later field wins. \<^verbatim>\<open>Error()\<close> and \<^verbatim>\<open>Info()\<close> hand the
  entry to the backend with that level (the logger of \<^verbatim>\<open>logrus.New()\<close> has level
  Info, which lets both through); what the backend received is the list \<open>emitted\<close>.
\<close>

datatype Formatter = TextFormatter | JSONFormatter | CustomFormatter string

datatype Hook = Hook string

record Logger =
  Formatter :: Formatter
  Hooks :: "Hook list"

definition logrus_New :: Logger where
  "logrus_New = \<lparr>Formatter = TextFormatter, Hooks = []\<rparr>"

record Entry =
  Data :: Fields

datatype Level = ErrorLevel | InfoLevel

record LogLine =
  level :: Level
  data :: Fields

definition Entry_WithFields :: "Entry \<Rightarrow> Fields \<Rightarrow> Entry" where
  "Entry_WithFields entry fs = \<lparr>Data = Data entry ++ fs\<rparr>"

definition Logger_WithFields :: "Logger option \<Rightarrow> Fields \<Rightarrow> panic + Entry" where
  "Logger_WithFields logger fs =
     (case logger of
        None \<Rightarrow> Inl NilPointerDereference
      | Some l \<Rightarrow> Inr (Entry_WithFields \<lparr>Data = Map.empty\<rparr> fs))"

section \<open>The segment contract\<close>

text \<open>
  \<^verbatim>\<open>Segment\<close> is an interface. The coordinator calls \<^verbatim>\<open>Type()\<close>, \<^verbatim>\<open>Fields()\<close> and
  \<^verbatim>\<open>HasFailed()\<close> on it, so an interface value is what these three return at the time
  of the call; a nil interface is \<open>None\<close> where one is passed.
\<close>

record Segment =
  Type :: string
  Fields :: Fields
  HasFailed :: bool

section \<open>The coordinator\<close>

record transaction =
  id' :: string
  logger :: Entry
  segments :: "Segment list"

record coordinator =
  mainLogger :: "Logger option"
  defaultFields :: Fields
  transactionMap :: "string \<rightharpoonup> transaction"

text \<open>
  The process-wide state: the package variable \<^verbatim>\<open>coordinatorInstance\<close> and the
  entries the logging backend has received so far, oldest first.
\<close>

record world =
  coordinatorInstance :: coordinator
  emitted :: "LogLine list"

definition coordinator_zero :: coordinator where
  "coordinator_zero = \<lparr>mainLogger = None, defaultFields = Map.empty, transactionMap = Map.empty\<rparr>"

definition Entry_Log :: "Level \<Rightarrow> Entry \<Rightarrow> world \<Rightarrow> world" where
  "Entry_Log lvl entry w = w\<lparr>emitted := emitted w @ [\<lparr>level = lvl, data = Data entry\<rparr>]\<rparr>"

definition Entry_Error :: "Entry \<Rightarrow> world \<Rightarrow> world" where
  "Entry_Error = Entry_Log ErrorLevel"

definition Entry_Info :: "Entry \<Rightarrow> world \<Rightarrow> world" where
  "Entry_Info = Entry_Log InfoLevel"

text \<open>
  The functional options. Each returns a closure over the coordinator; the two that
  go through \<^verbatim>\<open>x.mainLogger\<close> dereference it.
\<close>

definition LogFormat :: "Formatter \<Rightarrow> coordinator \<Rightarrow> panic + coordinator" where
  "LogFormat formatter x =
     (case mainLogger x of
        None \<Rightarrow> Inl NilPointerDereference
      | Some l \<Rightarrow> Inr (x\<lparr>mainLogger := Some (l\<lparr>Formatter := formatter\<rparr>)\<rparr>))"

fun Hooks' :: "Hook list \<Rightarrow> coordinator \<Rightarrow> panic + coordinator" where
  "Hooks' [] x = Inr x"
| "Hooks' (hook # hooks) x =
     (case mainLogger x of
        None \<Rightarrow> Inl NilPointerDereference
      | Some l \<Rightarrow> Hooks' hooks (x\<lparr>mainLogger := Some (l\<lparr>Hooks := Hooks l @ [hook]\<rparr>)\<rparr>))"

definition DefaultFields :: "Fields \<Rightarrow> coordinator \<Rightarrow> panic + coordinator" where
  "DefaultFields fs x = Inr (x\<lparr>defaultFields := defaultFields x ++ fs\<rparr>)"

fun apply_opts :: "(coordinator \<Rightarrow> panic + coordinator) list \<Rightarrow> coordinator \<Rightarrow> panic + coordinator" where
  "apply_opts [] x = Inr x"
| "apply_opts (opt # opts) x =
     (case opt x of Inl p \<Rightarrow> Inl p | Inr x' \<Rightarrow> apply_opts opts x')"

definition Init :: "(coordinator \<Rightarrow> panic + coordinator) list \<Rightarrow> world \<Rightarrow> panic + world" where
  "Init opts w =
     (case apply_opts opts
             \<lparr>mainLogger = Some logrus_New, defaultFields = Map.empty, transactionMap = Map.empty\<rparr> of
        Inl p \<Rightarrow> Inl p
      | Inr x \<Rightarrow>
          Inr (w\<lparr>coordinatorInstance := x\<lparr>defaultFields := (defaultFields x)(''audit'' \<mapsto> VBool True)\<rparr>\<rparr>))"

definition NewTransaction :: "string \<Rightarrow> world \<Rightarrow> panic + (error \<times> world)" where
  "NewTransaction transactionID w =
     (let c = coordinatorInstance w in
      case transactionMap c transactionID of
        Some tx \<Rightarrow>
          Inr (Some (''TransactionID '' @ transactionID @ '' already exists inside transactions map''), w)
      | None \<Rightarrow>
          (case Logger_WithFields (mainLogger c) (defaultFields c) of
             Inl p \<Rightarrow> Inl p
           | Inr e \<Rightarrow>
               let tx = \<lparr>id' = transactionID, logger = e, segments = []\<rparr>
               in Inr (None, w\<lparr>coordinatorInstance :=
                                 c\<lparr>transactionMap := (transactionMap c)(transactionID \<mapsto> tx)\<rparr>\<rparr>)))"

definition AppendSegment :: "string \<Rightarrow> Segment option \<Rightarrow> world \<Rightarrow> panic + (error \<times> world)" where
  "AppendSegment transactionID segment w =
     (let c = coordinatorInstance w in
      case segment of
        None \<Rightarrow> Inl NilPointerDereference
      | Some sg \<Rightarrow>
          (case Logger_WithFields (mainLogger c)
                  [''segment.type'' \<mapsto> VString (Type sg),
                   ''segment.data'' \<mapsto> VFields (Fields sg),
                   ''audit'' \<mapsto> VBool False] of
             Inl p \<Rightarrow> Inl p
           | Inr e \<Rightarrow>
               let segmentEntry = Entry_WithFields e (defaultFields c);
                   w1 = (if HasFailed sg then Entry_Error segmentEntry w
                         else Entry_Info segmentEntry w)
               in (case transactionMap c transactionID of
                     None \<Rightarrow> Inr (Some (''Transaction '' @ transactionID @ '' not found''), w1)
                   | Some tx \<Rightarrow>
                       Inr (None, w1\<lparr>coordinatorInstance :=
                                        c\<lparr>transactionMap := (transactionMap c)
                                             (transactionID \<mapsto> tx\<lparr>segments := segments tx @ [sg]\<rparr>)\<rparr>\<rparr>))))"

definition FlushTransaction :: "string \<Rightarrow> world \<Rightarrow> panic + (error \<times> world)" where
  "FlushTransaction transactionID w =
     (let c = coordinatorInstance w in
      case transactionMap c transactionID of
        None \<Rightarrow> Inr (Some (''TransactionID '' @ transactionID @ '' not found''), w)
      | Some tx \<Rightarrow>
          let w1 = (if has_key (Data (logger tx)) ''error'' then Entry_Error (logger tx) w
                    else Entry_Info (logger tx) w)
          in Inr (None, w1\<lparr>coordinatorInstance :=
                             c\<lparr>transactionMap := (transactionMap c)(transactionID := None)\<rparr>\<rparr>))"

section \<open>Time\<close>

text \<open>
  A \<^verbatim>\<open>time.Time\<close> taken by \<^verbatim>\<open>time.Now()\<close> carries a reading of the monotonic clock,
  in nanoseconds, and \<^verbatim>\<open>time.Since\<close> subtracts two such readings into a
  \<^verbatim>\<open>Duration\<close>, a 64-bit signed count of nanoseconds that saturates at its bounds.
  \<^verbatim>\<open>d / time.Millisecond\<close> is Go's integer division, which truncates towards zero.
  Go's \<^verbatim>\<open>int\<close> is taken to be 64 bits wide, as on amd64 and arm64; the conversion
  \<^verbatim>\<open>int(d)\<close> wraps around at that width.
\<close>

type_synonym Time = int

definition minDuration :: int where
  "minDuration = - (2 ^ 63)"

definition maxDuration :: int where
  "maxDuration = 2 ^ 63 - 1"

definition Millisecond :: int where
  "Millisecond = 1000000"

definition time_Since :: "Time \<Rightarrow> Time \<Rightarrow> int" where
  "time_Since t now =
     (if now - t > maxDuration then maxDuration
      else if now - t < minDuration then minDuration
      else now - t)"

definition go_int :: "int \<Rightarrow> int" where
  "go_int n = (n + 2 ^ 63) mod 2 ^ 64 - 2 ^ 63"

definition elapsed_ms :: "Time \<Rightarrow> Time \<Rightarrow> int" where
  "elapsed_ms t now = go_int (time_Since t now sdiv Millisecond)"

section \<open>HTTP requests and responses\<close>

text \<open>
  The fields of \<^verbatim>\<open>http.Request\<close> and \<^verbatim>\<open>http.Response\<close> the segments read. A body
  is \<^verbatim>\<open>http.NoBody\<close> or a reader with the bytes still to be read.
\<close>

datatype ReadCloser = NoBody | Reader string

record Request =
  Method :: string
  URL_Path :: string
  Header :: "string \<rightharpoonup> string list"
  Body :: ReadCloser

record Response =
  StatusCode :: int
  ResHeader :: "string \<rightharpoonup> string list"
  ResBody :: ReadCloser

definition StatusOK :: int where
  "StatusOK = 200"

definition StatusInternalServerError :: int where
  "StatusInternalServerError = 500"

section \<open>HTTPSegment\<close>

text \<open>
  The mutex of a segment orders concurrent calls; in a sequential run \<^verbatim>\<open>Lock\<close> and
  \<^verbatim>\<open>Unlock\<close> change nothing, and the records leave it out.
\<close>

record HTTPSegment =
  http_start :: Time
  http_data :: Fields

definition NewServerSegment :: "Request \<Rightarrow> Time \<Rightarrow> Request \<times> HTTPSegment" where
  "NewServerSegment r now =
     (let d = [''method'' \<mapsto> VString (Method r),
               ''path'' \<mapsto> VString (URL_Path r),
               ''request.query_params'' \<mapsto> VFunc,
               ''request.headers'' \<mapsto> VHeader (Header r)]
      in case Body r of
           NoBody \<Rightarrow> (r, \<lparr>http_start = now, http_data = d\<rparr>)
         | Reader buf \<Rightarrow>
             (r\<lparr>Body := Reader buf\<rparr>,
              \<lparr>http_start = now, http_data = d(''request.body'' \<mapsto> VString buf)\<rparr>))"

definition HTTPSegment_Type :: "HTTPSegment \<Rightarrow> string" where
  "HTTPSegment_Type s = ''http''"

definition HTTPSegment_Failed :: "HTTPSegment \<Rightarrow> error \<Rightarrow> panic + HTTPSegment" where
  "HTTPSegment_Failed s err =
     (case err of
        None \<Rightarrow> Inl NilPointerDereference
      | Some m \<Rightarrow>
          Inr (s\<lparr>http_data := (http_data s)
                   (''error'' \<mapsto> VString m,
                    ''status_code'' \<mapsto> VInt StatusInternalServerError)\<rparr>))"

definition HTTPSegment_Fields :: "HTTPSegment \<Rightarrow> Fields" where
  "HTTPSegment_Fields s = http_data s"

definition HTTPSegment_HasFailed :: "HTTPSegment \<Rightarrow> bool" where
  "HTTPSegment_HasFailed s =
     (case http_data s ''error'' of None \<Rightarrow> False | Some v \<Rightarrow> \<not> is_nil v)"

definition HTTPSegment_Response :: "HTTPSegment \<Rightarrow> Response \<Rightarrow> Response \<times> HTTPSegment" where
  "HTTPSegment_Response s res =
     (let d = (http_data s)
                (''status_code'' \<mapsto> VInt (StatusCode res),
                 ''response.headers'' \<mapsto> VHeader (ResHeader res))
      in case ResBody res of
           NoBody \<Rightarrow> (res, s\<lparr>http_data := d\<rparr>)
         | Reader buf \<Rightarrow>
             (res\<lparr>ResBody := Reader buf\<rparr>,
              s\<lparr>http_data := d(''response.body'' \<mapsto> VString buf)\<rparr>))"

definition HTTPSegment_Done :: "HTTPSegment \<Rightarrow> Time \<Rightarrow> HTTPSegment" where
  "HTTPSegment_Done s now =
     (let d = (http_data s)(''elapsed_ms'' \<mapsto> VInt (elapsed_ms (http_start s) now))
      in if has_key d ''status_code'' then s\<lparr>http_data := d\<rparr>
         else s\<lparr>http_data := d(''status_code'' \<mapsto> VInt StatusOK)\<rparr>)"

definition HTTPSegment_Segment :: "HTTPSegment \<Rightarrow> Segment" where
  "HTTPSegment_Segment s =
     \<lparr>Type = HTTPSegment_Type s, Fields = HTTPSegment_Fields s,
      HasFailed = HTTPSegment_HasFailed s\<rparr>"

section \<open>ServerSegment\<close>

record ServerSegment =
  server_start :: Time
  server_data :: Fields

definition http_NewServerSegment :: "Request \<Rightarrow> Time \<Rightarrow> Request \<times> ServerSegment" where
  "http_NewServerSegment r now =
     (let d = [''method'' \<mapsto> VString (Method r),
               ''path'' \<mapsto> VString (URL_Path r),
               ''request.query_params'' \<mapsto> VFunc,
               ''request.headers'' \<mapsto> VHeader (Header r)]
      in case Body r of
           NoBody \<Rightarrow> (r, \<lparr>server_start = now, server_data = d\<rparr>)
         | Reader buf \<Rightarrow>
             (r\<lparr>Body := Reader buf\<rparr>,
              \<lparr>server_start = now, server_data = d(''request.body'' \<mapsto> VString buf)\<rparr>))"

definition ServerSegment_Type :: "ServerSegment \<Rightarrow> string" where
  "ServerSegment_Type s = ''http - server''"

definition ServerSegment_Failed :: "ServerSegment \<Rightarrow> error \<Rightarrow> panic + ServerSegment" where
  "ServerSegment_Failed s err =
     (case err of
        None \<Rightarrow> Inl NilPointerDereference
      | Some m \<Rightarrow>
          Inr (s\<lparr>server_data := (server_data s)
                   (''error'' \<mapsto> VString m,
                    ''status_code'' \<mapsto> VInt StatusInternalServerError)\<rparr>))"

definition ServerSegment_Fields :: "ServerSegment \<Rightarrow> Fields" where
  "ServerSegment_Fields s = server_data s"

definition ServerSegment_HasFailed :: "ServerSegment \<Rightarrow> bool" where
  "ServerSegment_HasFailed s =
     (case server_data s ''error'' of None \<Rightarrow> False | Some v \<Rightarrow> \<not> is_nil v)"

text \<open>
  \<^verbatim>\<open>JSONResponse\<close> marshals the body with \<^verbatim>\<open>json.Marshal\<close>, which is outside the
  package: it is the parameter \<open>marshal\<close>, returning the bytes and an error.
\<close>

definition ServerSegment_JSONResponse ::
  "(val \<Rightarrow> string \<times> error) \<Rightarrow> ServerSegment \<Rightarrow> int \<Rightarrow> val \<Rightarrow> (string \<rightharpoonup> string list) \<Rightarrow> ServerSegment" where
  "ServerSegment_JSONResponse marshal s statusCode body headers =
     (let d = (server_data s)
                (''status_code'' \<mapsto> VInt statusCode,
                 ''response.headers'' \<mapsto> VHeader headers)
      in if \<not> is_nil body then
           (case marshal body of
              (responseBytes, None) \<Rightarrow> s\<lparr>server_data := d(''response.body'' \<mapsto> VString responseBytes)\<rparr>
            | (responseBytes, Some e) \<Rightarrow> s\<lparr>server_data := d\<rparr>)
         else s\<lparr>server_data := d\<rparr>)"

definition ServerSegment_Done :: "ServerSegment \<Rightarrow> Time \<Rightarrow> ServerSegment" where
  "ServerSegment_Done s now =
     (let d = (server_data s)(''elapsed_ms'' \<mapsto> VInt (elapsed_ms (server_start s) now))
      in if has_key d ''status_code'' then s\<lparr>server_data := d\<rparr>
         else s\<lparr>server_data := d(''status_code'' \<mapsto> VInt StatusOK)\<rparr>)"

definition ServerSegment_Segment :: "ServerSegment \<Rightarrow> Segment" where
  "ServerSegment_Segment s =
     \<lparr>Type = ServerSegment_Type s, Fields = ServerSegment_Fields s,
      HasFailed = ServerSegment_HasFailed s\<rparr>"

section \<open>SQLSegment\<close>

text \<open>
  Of \<^verbatim>\<open>sql.Result\<close> and \<^verbatim>\<open>*sql.Rows\<close> the segment calls one method each, which returns
  a value and an error.
\<close>

record Result =
  RowsAffected :: "int \<times> error"

record Rows =
  Columns :: "string list \<times> error"

record SQLSegment =
  sql_start :: Time
  sql_data :: Fields

definition NewSQLSegment :: "string \<Rightarrow> string \<Rightarrow> Fields \<Rightarrow> Time \<Rightarrow> SQLSegment" where
  "NewSQLSegment driver statement params now =
     \<lparr>sql_start = now,
      sql_data = [''statement'' \<mapsto> VString statement,
                  ''params'' \<mapsto> VFields params,
                  ''driver'' \<mapsto> VString driver]\<rparr>"

definition SQLSegment_Type :: "SQLSegment \<Rightarrow> string" where
  "SQLSegment_Type s = ''sql''"

definition SQLSegment_Failed :: "SQLSegment \<Rightarrow> error \<Rightarrow> panic + SQLSegment" where
  "SQLSegment_Failed s err =
     (case err of
        None \<Rightarrow> Inl NilPointerDereference
      | Some m \<Rightarrow> Inr (s\<lparr>sql_data := (sql_data s)(''error'' \<mapsto> VString m)\<rparr>))"

definition SQLSegment_Fields :: "SQLSegment \<Rightarrow> Fields" where
  "SQLSegment_Fields s = sql_data s"

definition SQLSegment_HasFailed :: "SQLSegment \<Rightarrow> bool" where
  "SQLSegment_HasFailed s =
     (case sql_data s ''error'' of None \<Rightarrow> False | Some v \<Rightarrow> \<not> is_nil v)"

definition SQLSegment_ExecResponse :: "SQLSegment \<Rightarrow> Result \<Rightarrow> SQLSegment" where
  "SQLSegment_ExecResponse s res =
     (case RowsAffected res of
        (rowsAffected, None) \<Rightarrow> s\<lparr>sql_data := (sql_data s)(''rows_affected'' \<mapsto> VInt rowsAffected)\<rparr>
      | (rowsAffected, Some e) \<Rightarrow> s)"

definition SQLSegment_QueryResponse :: "SQLSegment \<Rightarrow> Rows \<Rightarrow> SQLSegment" where
  "SQLSegment_QueryResponse s rows =
     (case Columns rows of
        (columns, None) \<Rightarrow> s\<lparr>sql_data := (sql_data s)(''columns'' \<mapsto> VStrings columns)\<rparr>
      | (columns, Some e) \<Rightarrow> s)"

definition SQLSegment_Done :: "SQLSegment \<Rightarrow> Time \<Rightarrow> SQLSegment" where
  "SQLSegment_Done s now =
     s\<lparr>sql_data := (sql_data s)(''elapsed_ms'' \<mapsto> VInt (elapsed_ms (sql_start s) now))\<rparr>"

definition SQLSegment_Segment :: "SQLSegment \<Rightarrow> Segment" where
  "SQLSegment_Segment s =
     \<lparr>Type = SQLSegment_Type s, Fields = SQLSegment_Fields s,
      HasFailed = SQLSegment_HasFailed s\<rparr>"

section \<open>Callers\<close>

text \<open>
  A caller of a segment is a sequence of method calls on it, run in order; a panic ends
  the run. The same for a caller of the coordinator after \<^verbatim>\<open>Init\<close>.
\<close>

datatype HTTPCall = HTTP_Failed error | HTTP_Response Response | HTTP_Done Time

fun HTTPSegment_call :: "HTTPCall \<Rightarrow> HTTPSegment \<Rightarrow> panic + HTTPSegment" where
  "HTTPSegment_call (HTTP_Failed err) s = HTTPSegment_Failed s err"
| "HTTPSegment_call (HTTP_Response res) s = Inr (snd (HTTPSegment_Response s res))"
| "HTTPSegment_call (HTTP_Done now) s = Inr (HTTPSegment_Done s now)"

fun HTTPSegment_calls :: "HTTPCall list \<Rightarrow> HTTPSegment \<Rightarrow> panic + HTTPSegment" where
  "HTTPSegment_calls [] s = Inr s"
| "HTTPSegment_calls (c # cs) s =
     (case HTTPSegment_call c s of Inl p \<Rightarrow> Inl p | Inr s' \<Rightarrow> HTTPSegment_calls cs s')"

fun is_HTTP_Failed :: "HTTPCall \<Rightarrow> bool" where
  "is_HTTP_Failed (HTTP_Failed err) = True"
| "is_HTTP_Failed c = False"

datatype ServerCall =
    Server_Failed error
  | Server_JSONResponse int val "string \<rightharpoonup> string list"
  | Server_Done Time

fun ServerSegment_call ::
  "(val \<Rightarrow> string \<times> error) \<Rightarrow> ServerCall \<Rightarrow> ServerSegment \<Rightarrow> panic + ServerSegment" where
  "ServerSegment_call marshal (Server_Failed err) s = ServerSegment_Failed s err"
| "ServerSegment_call marshal (Server_JSONResponse statusCode body headers) s =
     Inr (ServerSegment_JSONResponse marshal s statusCode body headers)"
| "ServerSegment_call marshal (Server_Done now) s = Inr (ServerSegment_Done s now)"

fun ServerSegment_calls ::
  "(val \<Rightarrow> string \<times> error) \<Rightarrow> ServerCall list \<Rightarrow> ServerSegment \<Rightarrow> panic + ServerSegment" where
  "ServerSegment_calls marshal [] s = Inr s"
| "ServerSegment_calls marshal (c # cs) s =
     (case ServerSegment_call marshal c s of
        Inl p \<Rightarrow> Inl p
      | Inr s' \<Rightarrow> ServerSegment_calls marshal cs s')"

fun is_Server_Failed :: "ServerCall \<Rightarrow> bool" where
  "is_Server_Failed (Server_Failed err) = True"
| "is_Server_Failed c = False"

datatype SQLCall =
    SQL_Failed error
  | SQL_ExecResponse Result
  | SQL_QueryResponse Rows
  | SQL_Done Time

fun SQLSegment_call :: "SQLCall \<Rightarrow> SQLSegment \<Rightarrow> panic + SQLSegment" where
  "SQLSegment_call (SQL_Failed err) s = SQLSegment_Failed s err"
| "SQLSegment_call (SQL_ExecResponse res) s = Inr (SQLSegment_ExecResponse s res)"
| "SQLSegment_call (SQL_QueryResponse rows) s = Inr (SQLSegment_QueryResponse s rows)"
| "SQLSegment_call (SQL_Done now) s = Inr (SQLSegment_Done s now)"

fun SQLSegment_calls :: "SQLCall list \<Rightarrow> SQLSegment \<Rightarrow> panic + SQLSegment" where
  "SQLSegment_calls [] s = Inr s"
| "SQLSegment_calls (c # cs) s =
     (case SQLSegment_call c s of Inl p \<Rightarrow> Inl p | Inr s' \<Rightarrow> SQLSegment_calls cs s')"

fun is_SQL_Failed :: "SQLCall \<Rightarrow> bool" where
  "is_SQL_Failed (SQL_Failed err) = True"
| "is_SQL_Failed c = False"

datatype call =
    Call_NewTransaction string
  | Call_AppendSegment string "Segment option"
  | Call_FlushTransaction string

fun coordinator_call :: "call \<Rightarrow> world \<Rightarrow> panic + (error \<times> world)" where
  "coordinator_call (Call_NewTransaction i) w = NewTransaction i w"
| "coordinator_call (Call_AppendSegment i sg) w = AppendSegment i sg w"
| "coordinator_call (Call_FlushTransaction i) w = FlushTransaction i w"

text \<open>The errors the calls returned, in order, and the state after the last one.\<close>

fun coordinator_calls :: "call list \<Rightarrow> world \<Rightarrow> panic + (error list \<times> world)" where
  "coordinator_calls [] w = Inr ([], w)"
| "coordinator_calls (c # cs) w =
     (case coordinator_call c w of
        Inl p \<Rightarrow> Inl p
      | Inr (e, w') \<Rightarrow>
          (case coordinator_calls cs w' of
             Inl p \<Rightarrow> Inl p
           | Inr (es, w'') \<Rightarrow> Inr (e # es, w'')))"

text \<open>
  Whether the id \<open>i\<close> is open after a sequence of calls, read off the calls alone:
  \<^verbatim>\<open>NewTransaction(i)\<close> opens it, \<^verbatim>\<open>FlushTransaction(i)\<close> closes it, and \<open>b\<close>
  says whether it was open before.
\<close>

fun open_after :: "string \<Rightarrow> bool \<Rightarrow> call list \<Rightarrow> bool" where
  "open_after i b [] = b"
| "open_after i b (Call_NewTransaction j # cs) = open_after i (b \<or> j = i) cs"
| "open_after i b (Call_AppendSegment j sg # cs) = open_after i b cs"
| "open_after i b (Call_FlushTransaction j # cs) = open_after i (b \<and> j \<noteq> i) cs"

text \<open>
  The state of a program that has not called \<^verbatim>\<open>Init\<close>, the state after \<^verbatim>\<open>Init()\<close>
  with no option, and that state with the transaction \<^verbatim>\<open>tx1\<close> open.
\<close>

definition world_zero :: world where
  "world_zero = \<lparr>coordinatorInstance = coordinator_zero, emitted = []\<rparr>"

definition world_init :: world where
  "world_init =
     \<lparr>coordinatorInstance =
        \<lparr>mainLogger = Some logrus_New,
         defaultFields = [''audit'' \<mapsto> VBool True],
         transactionMap = Map.empty\<rparr>,
      emitted = []\<rparr>"

definition world_tx1 :: world where
  "world_tx1 =
     \<lparr>coordinatorInstance =
        \<lparr>mainLogger = Some logrus_New,
         defaultFields = [''audit'' \<mapsto> VBool True],
         transactionMap =
           [''tx1'' \<mapsto> \<lparr>id' = ''tx1'', logger = \<lparr>Data = [''audit'' \<mapsto> VBool True]\<rparr>,
                          segments = []\<rparr>]\<rparr>,
      emitted = []\<rparr>"

text \<open>
  The state after \<^verbatim>\<open>Init(DefaultFields({"error": "degraded"}))\<close> and
  \<^verbatim>\<open>NewTransaction("tx1")\<close>: the logging context of the transaction has an
  \<^verbatim>\<open>error\<close> field.
\<close>

definition world_degraded :: world where
  "world_degraded =
     \<lparr>coordinatorInstance =
        \<lparr>mainLogger = Some logrus_New,
         defaultFields = [''error'' \<mapsto> VString ''degraded'', ''audit'' \<mapsto> VBool True],
         transactionMap =
           [''tx1'' \<mapsto>
              \<lparr>id' = ''tx1'',
               logger = \<lparr>Data = [''error'' \<mapsto> VString ''degraded'', ''audit'' \<mapsto> VBool True]\<rparr>,
               segments = []\<rparr>]\<rparr>,
      emitted = []\<rparr>"

text \<open>
  A finished SQL segment that did not fail and one that did, both started at clock
  reading 0 and done 5 ms later.
\<close>

definition sql_ok :: SQLSegment where
  "sql_ok = SQLSegment_Done (NewSQLSegment ''postgres'' ''SELECT 1'' Map.empty 0) 5000000"

definition sql_failed :: SQLSegment where
  "sql_failed =
     \<lparr>sql_start = 0,
      sql_data = [''statement'' \<mapsto> VString ''SELECT 1'',
                  ''params'' \<mapsto> VFields Map.empty,
                  ''driver'' \<mapsto> VString ''postgres'',
                  ''error'' \<mapsto> VString ''connection refused'',
                  ''elapsed_ms'' \<mapsto> VInt 5]\<rparr>"

text \<open>A GET request without a body, and the JSON encoder that fails on every value.\<close>

definition request_get :: Request where
  "request_get = \<lparr>Method = ''GET'', URL_Path = ''/health'', Header = Map.empty, Body = NoBody\<rparr>"

definition marshal_fails :: "val \<Rightarrow> string \<times> error" where
  "marshal_fails v = ([], Some ''json: unsupported type'')"

section \<open>Lookups\<close>

lemma has_key_dom [simp]: "has_key m k = (k \<in> dom m)"
  by (auto simp: has_key_def split: option.splits)

lemma is_nil_iff [simp]: "is_nil v = (v = VNil)"
  by (cases v) simp_all

section \<open>Init\<close>

lemma Hooks'_logger:
  "mainLogger x \<noteq> None \<Longrightarrow> \<exists>x'. Hooks' hooks x = Inr x' \<and> mainLogger x' \<noteq> None"
  by (induction hooks arbitrary: x) auto

lemma apply_opts_logger:
  assumes "set opts \<subseteq> range LogFormat \<union> range Hooks' \<union> range DefaultFields"
    and "mainLogger x \<noteq> None"
  shows "\<exists>x'. apply_opts opts x = Inr x' \<and> mainLogger x' \<noteq> None"
  using assms
proof (induction opts arbitrary: x)
  case Nil
  then show ?case by simp
next
  case (Cons opt opts)
  from Cons.prems(1) have "opt \<in> range LogFormat \<union> range Hooks' \<union> range DefaultFields"
    and rest: "set opts \<subseteq> range LogFormat \<union> range Hooks' \<union> range DefaultFields"
    by auto
  then consider f where "opt = LogFormat f" | hs where "opt = Hooks' hs"
    | fs where "opt = DefaultFields fs"
    by auto
  then obtain x1 where "opt x = Inr x1" "mainLogger x1 \<noteq> None"
  proof cases
    case 1
    with Cons.prems(2) that show ?thesis by (auto simp: LogFormat_def)
  next
    case 2
    with Cons.prems(2) Hooks'_logger [of x hs] that show ?thesis by auto
  next
    case 3
    with Cons.prems(2) that show ?thesis by (auto simp: DefaultFields_def)
  qed
  with Cons.IH [OF rest, of x1] show ?case by auto
qed

lemma Hooks'_registry:
  "Hooks' hooks x = Inr x' \<Longrightarrow> transactionMap x' = transactionMap x"
  by (induction hooks arbitrary: x) (auto split: option.splits)

lemma apply_opts_registry:
  assumes "set opts \<subseteq> range LogFormat \<union> range Hooks' \<union> range DefaultFields"
    and "apply_opts opts x = Inr x'"
  shows "transactionMap x' = transactionMap x"
  using assms
proof (induction opts arbitrary: x)
  case Nil
  then show ?case by simp
next
  case (Cons opt opts)
  from Cons.prems(2) obtain x1 where x1: "opt x = Inr x1" and x': "apply_opts opts x1 = Inr x'"
    by (auto split: sum.splits)
  from Cons.prems(1) consider f where "opt = LogFormat f" | hs where "opt = Hooks' hs"
    | fs where "opt = DefaultFields fs"
    by auto
  then have "transactionMap x1 = transactionMap x"
  proof cases
    case 1
    with x1 show ?thesis by (auto simp: LogFormat_def split: option.splits)
  next
    case 2
    with x1 show ?thesis by (auto dest: Hooks'_registry)
  next
    case 3
    with x1 show ?thesis by (auto simp: DefaultFields_def)
  qed
  moreover from Cons.prems(1) have "set opts \<subseteq> range LogFormat \<union> range Hooks' \<union> range DefaultFields"
    by auto
  ultimately show ?case using Cons.IH [OF _ x'] by simp
qed

lemma Init_state:
  assumes "set opts \<subseteq> range LogFormat \<union> range Hooks' \<union> range DefaultFields"
  shows "\<exists>w'. Init opts w = Inr w'
           \<and> mainLogger (coordinatorInstance w') \<noteq> None
           \<and> transactionMap (coordinatorInstance w') = Map.empty
           \<and> defaultFields (coordinatorInstance w') ''audit'' = Some (VBool True)"
proof -
  let ?x = "\<lparr>mainLogger = Some logrus_New, defaultFields = Map.empty, transactionMap = Map.empty\<rparr>"
  obtain x' where x': "apply_opts opts ?x = Inr x'" and l: "mainLogger x' \<noteq> None"
    using apply_opts_logger [OF assms, of ?x] by auto
  from apply_opts_registry [OF assms x'] have "transactionMap x' = Map.empty" by simp
  with x' l show ?thesis by (simp add: Init_def)
qed

lemma Init_world_init: "Init [] world_zero = Inr world_init"
  by (simp add: Init_def world_zero_def world_init_def coordinator_zero_def)

text \<open>
  C10. After every call to \<^verbatim>\<open>Init\<close>, whatever options built by \<^verbatim>\<open>LogFormat\<close>,
  \<^verbatim>\<open>Hooks\<close> and \<^verbatim>\<open>DefaultFields\<close> it was given and whatever the state before, the call
  returns and the coordinator's default fields map \<^verbatim>\<open>audit\<close> to true: the marker is
  written after the options have run, so it replaces an \<^verbatim>\<open>audit\<close> default field of
  the caller.
\<close>

theorem Init_audit_true:
  assumes "set opts \<subseteq> range LogFormat \<union> range Hooks' \<union> range DefaultFields"
  shows "\<exists>w'. Init opts w = Inr w'
           \<and> defaultFields (coordinatorInstance w') ''audit'' = Some (VBool True)"
  using Init_state [OF assms, of w] by auto

theorem Init_audit_true_witness:
  "set [DefaultFields [''audit'' \<mapsto> VBool False], LogFormat JSONFormatter]
     \<subseteq> range LogFormat \<union> range Hooks' \<union> range DefaultFields
   \<and> (\<exists>w'. Init [DefaultFields [''audit'' \<mapsto> VBool False], LogFormat JSONFormatter] world_zero
              = Inr w'
         \<and> defaultFields (coordinatorInstance w') ''audit'' = Some (VBool True))"
proof -
  have h: "set [DefaultFields [''audit'' \<mapsto> VBool False], LogFormat JSONFormatter]
             \<subseteq> range LogFormat \<union> range Hooks' \<union> range DefaultFields"
    by simp
  from h Init_audit_true [OF h, of world_zero] show ?thesis by (intro conjI)
qed

section \<open>What each coordinator call returns\<close>

lemma NewTransaction_present:
  "transactionMap (coordinatorInstance w) i = Some tx \<Longrightarrow>
   NewTransaction i w =
     Inr (Some (''TransactionID '' @ i @ '' already exists inside transactions map''), w)"
  by (simp add: NewTransaction_def)

lemma NewTransaction_absent:
  assumes "mainLogger (coordinatorInstance w) \<noteq> None"
    and "transactionMap (coordinatorInstance w) i = None"
  shows "NewTransaction i w =
     Inr (None,
          w\<lparr>coordinatorInstance := (coordinatorInstance w)\<lparr>transactionMap :=
               (transactionMap (coordinatorInstance w))
                 (i \<mapsto> \<lparr>id' = i, logger = \<lparr>Data = defaultFields (coordinatorInstance w)\<rparr>,
                        segments = []\<rparr>)\<rparr>\<rparr>)"
  using assms
  by (auto simp: NewTransaction_def Logger_WithFields_def Entry_WithFields_def Let_def)

lemma AppendSegment_absent:
  assumes "mainLogger (coordinatorInstance w) \<noteq> None"
    and "transactionMap (coordinatorInstance w) i = None"
  shows "AppendSegment i (Some sg) w =
     Inr (Some (''Transaction '' @ i @ '' not found''),
          w\<lparr>emitted := emitted w @
             [\<lparr>level = (if HasFailed sg then ErrorLevel else InfoLevel),
               data = [''segment.type'' \<mapsto> VString (Type sg),
                       ''segment.data'' \<mapsto> VFields (Fields sg),
                       ''audit'' \<mapsto> VBool False] ++ defaultFields (coordinatorInstance w)\<rparr>]\<rparr>)"
  using assms
  by (auto simp: AppendSegment_def Logger_WithFields_def Entry_WithFields_def Entry_Error_def
      Entry_Info_def Entry_Log_def Let_def)

lemma AppendSegment_present:
  assumes "mainLogger (coordinatorInstance w) \<noteq> None"
    and "transactionMap (coordinatorInstance w) i = Some tx"
  shows "AppendSegment i (Some sg) w =
     Inr (None,
          w\<lparr>emitted := emitted w @
             [\<lparr>level = (if HasFailed sg then ErrorLevel else InfoLevel),
               data = [''segment.type'' \<mapsto> VString (Type sg),
                       ''segment.data'' \<mapsto> VFields (Fields sg),
                       ''audit'' \<mapsto> VBool False] ++ defaultFields (coordinatorInstance w)\<rparr>],
             coordinatorInstance := (coordinatorInstance w)\<lparr>transactionMap :=
                (transactionMap (coordinatorInstance w))
                  (i \<mapsto> tx\<lparr>segments := segments tx @ [sg]\<rparr>)\<rparr>\<rparr>)"
  using assms
  by (auto simp: AppendSegment_def Logger_WithFields_def Entry_WithFields_def Entry_Error_def
      Entry_Info_def Entry_Log_def Let_def)

lemma AppendSegment_level:
  assumes "mainLogger (coordinatorInstance w) \<noteq> None"
  shows "\<exists>e w'. AppendSegment i (Some sg) w = Inr (e, w')
           \<and> map level (emitted w') =
               map level (emitted w) @ [if HasFailed sg then ErrorLevel else InfoLevel]"
proof (cases "transactionMap (coordinatorInstance w) i")
  case None
  show ?thesis by (simp add: AppendSegment_absent [OF assms None])
next
  case (Some tx)
  show ?thesis by (simp add: AppendSegment_present [OF assms Some])
qed

lemma AppendSegment_uninitialised:
  "mainLogger (coordinatorInstance w) = None \<Longrightarrow> AppendSegment i sg w = Inl NilPointerDereference"
  by (simp add: AppendSegment_def Logger_WithFields_def Let_def split: option.splits)

lemma FlushTransaction_absent:
  "transactionMap (coordinatorInstance w) i = None \<Longrightarrow>
   FlushTransaction i w = Inr (Some (''TransactionID '' @ i @ '' not found''), w)"
  by (simp add: FlushTransaction_def)

lemma FlushTransaction_present:
  "transactionMap (coordinatorInstance w) i = Some tx \<Longrightarrow>
   FlushTransaction i w =
     Inr (None,
          w\<lparr>emitted := emitted w @
             [\<lparr>level = (if ''error'' \<in> dom (Data (logger tx)) then ErrorLevel else InfoLevel),
               data = Data (logger tx)\<rparr>],
            coordinatorInstance := (coordinatorInstance w)\<lparr>transactionMap :=
               (transactionMap (coordinatorInstance w))(i := None)\<rparr>\<rparr>)"
  by (auto simp: FlushTransaction_def Entry_Error_def Entry_Info_def Entry_Log_def Let_def)

text \<open>
  Before \<^verbatim>\<open>Init\<close> the logger is nil: opening a transaction and appending a segment
  panic, flushing finds the registry empty. Appending a nil segment panics in any state.
\<close>

lemma calls_before_Init:
  "NewTransaction i world_zero = Inl NilPointerDereference
   \<and> AppendSegment i sg world_zero = Inl NilPointerDereference
   \<and> FlushTransaction i world_zero = Inr (Some (''TransactionID '' @ i @ '' not found''), world_zero)"
  by (simp add: NewTransaction_def AppendSegment_def FlushTransaction_def Logger_WithFields_def
      world_zero_def coordinator_zero_def Let_def split: option.splits)

lemma AppendSegment_nil_segment: "AppendSegment i None w = Inl NilPointerDereference"
  by (simp add: AppendSegment_def)

section \<open>The registry along a sequence of calls\<close>

lemma open_after_Cons: "open_after i b (c # cs) = open_after i (open_after i b [c]) cs"
  by (cases c) simp_all

lemma coordinator_call_state:
  assumes "coordinator_call c w = Inr (e, w')"
  shows "mainLogger (coordinatorInstance w') = mainLogger (coordinatorInstance w)
       \<and> defaultFields (coordinatorInstance w') = defaultFields (coordinatorInstance w)
       \<and> (transactionMap (coordinatorInstance w') i \<noteq> None)
           = open_after i (transactionMap (coordinatorInstance w) i \<noteq> None) [c]"
proof (cases c)
  case (Call_NewTransaction j)
  with assms show ?thesis
    by (auto simp: NewTransaction_def Logger_WithFields_def Let_def
          split: option.splits sum.splits)
next
  case (Call_AppendSegment j sg)
  with assms show ?thesis
    by (auto simp: AppendSegment_def Logger_WithFields_def Entry_Error_def Entry_Info_def
          Entry_Log_def Let_def split: option.splits sum.splits if_splits)
next
  case (Call_FlushTransaction j)
  with assms show ?thesis
    by (auto simp: FlushTransaction_def Entry_Error_def Entry_Info_def Entry_Log_def Let_def
          split: option.splits if_splits)
qed

lemma coordinator_calls_state:
  assumes "coordinator_calls cs w = Inr (es, w')"
  shows "mainLogger (coordinatorInstance w') = mainLogger (coordinatorInstance w)
       \<and> defaultFields (coordinatorInstance w') = defaultFields (coordinatorInstance w)
       \<and> (transactionMap (coordinatorInstance w') i \<noteq> None)
           = open_after i (transactionMap (coordinatorInstance w) i \<noteq> None) cs"
  using assms
proof (induction cs arbitrary: w es)
  case Nil
  then show ?case by simp
next
  case (Cons c cs)
  from Cons.prems obtain e w1 es1 where c: "coordinator_call c w = Inr (e, w1)"
    and cs: "coordinator_calls cs w1 = Inr (es1, w')"
    by (auto split: sum.splits prod.splits)
  from coordinator_call_state [OF c, of i] Cons.IH [OF cs] show ?case
    by (simp add: open_after_Cons [of i _ c cs])
qed

section \<open>The example states\<close>

lemma elapsed_ms_example: "elapsed_ms 0 5000000 = 5"
  by (simp add: elapsed_ms_def time_Since_def go_int_def maxDuration_def minDuration_def
      Millisecond_def signed_divide_int_def)

lemma sql_failed_calls:
  "SQLSegment_calls [SQL_Failed (Some ''connection refused''), SQL_Done 5000000]
     (NewSQLSegment ''postgres'' ''SELECT 1'' Map.empty 0) = Inr sql_failed"
  by (simp add: SQLSegment_Failed_def SQLSegment_Done_def NewSQLSegment_def sql_failed_def
      elapsed_ms_example)

lemma sql_ok_Segment:
  "SQLSegment_Segment sql_ok =
     \<lparr>Type = ''sql'',
      Fields = [''statement'' \<mapsto> VString ''SELECT 1'', ''params'' \<mapsto> VFields Map.empty,
                ''driver'' \<mapsto> VString ''postgres'', ''elapsed_ms'' \<mapsto> VInt 5],
      HasFailed = False\<rparr>"
  by (simp add: SQLSegment_Segment_def SQLSegment_Type_def SQLSegment_Fields_def
      SQLSegment_HasFailed_def sql_ok_def SQLSegment_Done_def NewSQLSegment_def elapsed_ms_example)

lemma sql_failed_Segment:
  "SQLSegment_Segment sql_failed =
     \<lparr>Type = ''sql'',
      Fields = [''statement'' \<mapsto> VString ''SELECT 1'', ''params'' \<mapsto> VFields Map.empty,
                ''driver'' \<mapsto> VString ''postgres'',
                ''error'' \<mapsto> VString ''connection refused'', ''elapsed_ms'' \<mapsto> VInt 5],
      HasFailed = True\<rparr>"
  by (simp add: SQLSegment_Segment_def SQLSegment_Type_def SQLSegment_Fields_def
      SQLSegment_HasFailed_def sql_failed_def)

lemma world_init_logger: "mainLogger (coordinatorInstance world_init) \<noteq> None"
  by (simp add: world_init_def)

lemma world_init_registry: "transactionMap (coordinatorInstance world_init) i = None"
  by (simp add: world_init_def)

lemma world_tx1_logger: "mainLogger (coordinatorInstance world_tx1) \<noteq> None"
  by (simp add: world_tx1_def)

lemma world_tx1_registry:
  "transactionMap (coordinatorInstance world_tx1) ''tx1'' =
     Some \<lparr>id' = ''tx1'', logger = \<lparr>Data = [''audit'' \<mapsto> VBool True]\<rparr>, segments = []\<rparr>"
  by (simp add: world_tx1_def)

lemma NewTransaction_world_init: "NewTransaction ''tx1'' world_init = Inr (None, world_tx1)"
  by (simp add: NewTransaction_absent [OF world_init_logger world_init_registry])
     (simp add: world_init_def world_tx1_def)

lemma world_degraded_calls:
  "Init [DefaultFields [''error'' \<mapsto> VString ''degraded'']] world_zero
     = Inr (world_degraded\<lparr>coordinatorInstance :=
              (coordinatorInstance world_degraded)\<lparr>transactionMap := Map.empty\<rparr>\<rparr>)
   \<and> NewTransaction ''tx1''
        (world_degraded\<lparr>coordinatorInstance :=
              (coordinatorInstance world_degraded)\<lparr>transactionMap := Map.empty\<rparr>\<rparr>)
     = Inr (None, world_degraded)"
  by (simp add: Init_def DefaultFields_def NewTransaction_def Logger_WithFields_def
      Entry_WithFields_def world_zero_def world_degraded_def coordinator_zero_def)

lemma world_degraded_registry:
  "transactionMap (coordinatorInstance world_degraded) ''tx1'' =
     Some \<lparr>id' = ''tx1'',
           logger = \<lparr>Data = [''error'' \<mapsto> VString ''degraded'', ''audit'' \<mapsto> VBool True]\<rparr>,
           segments = []\<rparr>"
  by (simp add: world_degraded_def)

section \<open>The stand-alone entry of a segment\<close>

lemma AppendSegment_audit_of_defaults:
  assumes "mainLogger (coordinatorInstance w) \<noteq> None"
    and "defaultFields (coordinatorInstance w) ''audit'' = Some v"
  shows "\<exists>e w'. AppendSegment i (Some sg) w = Inr (e, w')
           \<and> emitted w' \<noteq> [] \<and> data (last (emitted w')) ''audit'' = Some v"
proof (cases "transactionMap (coordinatorInstance w) i")
  case None
  show ?thesis using assms(2) by (simp add: AppendSegment_absent [OF assms(1) None] map_add_def)
next
  case (Some tx)
  show ?thesis using assms(2) by (simp add: AppendSegment_present [OF assms(1) Some] map_add_def)
qed

lemma AppendSegment_audit_after_Init:
  assumes "set opts \<subseteq> range LogFormat \<union> range Hooks' \<union> range DefaultFields"
    and "Init opts w0 = Inr w1"
    and "coordinator_calls cs w1 = Inr (es, w)"
  shows "\<exists>e w'. AppendSegment i (Some sg) w = Inr (e, w')
           \<and> emitted w' \<noteq> [] \<and> data (last (emitted w')) ''audit'' = Some (VBool True)"
proof -
  from Init_state [OF assms(1), of w0] assms(2)
  have "mainLogger (coordinatorInstance w1) \<noteq> None"
    and "defaultFields (coordinatorInstance w1) ''audit'' = Some (VBool True)"
    by auto
  with coordinator_calls_state [OF assms(3)]
  have "mainLogger (coordinatorInstance w) \<noteq> None"
    and "defaultFields (coordinatorInstance w) ''audit'' = Some (VBool True)"
    by auto
  then show ?thesis by (rule AppendSegment_audit_of_defaults)
qed

text \<open>
  C1. The claim: the stand-alone entry that \<^verbatim>\<open>AppendSegment\<close> emits for a segment carries
  the segment's tag under \<^verbatim>\<open>segment.type\<close>, its field set under \<^verbatim>\<open>segment.data\<close>,
  \<^verbatim>\<open>audit\<close> equal to false, and the default fields. The code builds the entry from
  the three segment fields first and the default fields second, and the default fields
  hold \<^verbatim>\<open>audit = true\<close> since \<^verbatim>\<open>Init\<close>, so the entry goes out with \<^verbatim>\<open>audit\<close> true.
  Here \<^verbatim>\<open>Init()\<close>, \<^verbatim>\<open>NewTransaction("tx1")\<close> and \<^verbatim>\<open>AppendSegment("tx1", s)\<close> for a
  finished SQL segment \<open>s\<close> are run: one entry is emitted, at info level, with the tag
  and the field set of \<open>s\<close>, and with \<^verbatim>\<open>audit\<close> true.
\<close>

theorem AppendSegment_entry_has_audit_true:
  "Init [] world_zero = Inr world_init
   \<and> NewTransaction ''tx1'' world_init = Inr (None, world_tx1)
   \<and> (case AppendSegment ''tx1'' (Some (SQLSegment_Segment sql_ok)) world_tx1 of
        Inl p \<Rightarrow> False
      | Inr (e, w) \<Rightarrow>
          e = None
          \<and> map (\<lambda>l. (level l, data l ''segment.type'', data l ''segment.data'', data l ''audit''))
                (emitted w)
            = [(InfoLevel, Some (VString ''sql''), Some (VFields (SQLSegment_Fields sql_ok)),
                Some (VBool True))])"
  by (simp add: Init_world_init NewTransaction_world_init
      AppendSegment_present [OF world_tx1_logger world_tx1_registry] sql_ok_Segment)
     (simp add: world_tx1_def SQLSegment_Fields_def sql_ok_def SQLSegment_Done_def
      NewSQLSegment_def elapsed_ms_example)

section \<open>Unknown ids\<close>

text \<open>
  C2. For an id that is absent from the registry and any segment, \<^verbatim>\<open>AppendSegment\<close>
  still emits the stand-alone entry for the segment, then returns the not-found error,
  and the registry, with the segment sequence of every open transaction, is as before.
\<close>

theorem AppendSegment_unknown_id_still_emits:
  assumes "mainLogger (coordinatorInstance w) \<noteq> None"
    and "transactionMap (coordinatorInstance w) i = None"
  shows "\<exists>w'. AppendSegment i (Some sg) w = Inr (Some (''Transaction '' @ i @ '' not found''), w')
           \<and> emitted w' = emitted w @
                [\<lparr>level = (if HasFailed sg then ErrorLevel else InfoLevel),
                  data = [''segment.type'' \<mapsto> VString (Type sg),
                          ''segment.data'' \<mapsto> VFields (Fields sg),
                          ''audit'' \<mapsto> VBool False] ++ defaultFields (coordinatorInstance w)\<rparr>]
           \<and> transactionMap (coordinatorInstance w') = transactionMap (coordinatorInstance w)"
  by (simp add: AppendSegment_absent [OF assms])

theorem AppendSegment_unknown_id_still_emits_witness:
  "mainLogger (coordinatorInstance world_tx1) \<noteq> None
   \<and> transactionMap (coordinatorInstance world_tx1) ''tx2'' = None
   \<and> (\<exists>w'. AppendSegment ''tx2'' (Some (SQLSegment_Segment sql_failed)) world_tx1
              = Inr (Some ''Transaction tx2 not found'', w')
         \<and> map level (emitted w') = [ErrorLevel]
         \<and> transactionMap (coordinatorInstance w') = transactionMap (coordinatorInstance world_tx1))"
proof -
  have absent: "transactionMap (coordinatorInstance world_tx1) ''tx2'' = None"
    by (simp add: world_tx1_def)
  from AppendSegment_unknown_id_still_emits
         [OF world_tx1_logger absent, of "SQLSegment_Segment sql_failed"]
  obtain w' where "AppendSegment ''tx2'' (Some (SQLSegment_Segment sql_failed)) world_tx1
              = Inr (Some (''Transaction '' @ ''tx2'' @ '' not found''), w')"
    and "emitted w' = emitted world_tx1 @
           [\<lparr>level = (if HasFailed (SQLSegment_Segment sql_failed) then ErrorLevel else InfoLevel),
             data = [''segment.type'' \<mapsto> VString (Type (SQLSegment_Segment sql_failed)),
                     ''segment.data'' \<mapsto> VFields (Fields (SQLSegment_Segment sql_failed)),
                     ''audit'' \<mapsto> VBool False] ++ defaultFields (coordinatorInstance world_tx1)\<rparr>]"
    and "transactionMap (coordinatorInstance w') = transactionMap (coordinatorInstance world_tx1)"
    by blast
  then have "AppendSegment ''tx2'' (Some (SQLSegment_Segment sql_failed)) world_tx1
              = Inr (Some ''Transaction tx2 not found'', w')
         \<and> map level (emitted w') = [ErrorLevel]
         \<and> transactionMap (coordinatorInstance w') = transactionMap (coordinatorInstance world_tx1)"
    by (simp add: sql_failed_Segment world_tx1_def)
  with world_tx1_logger absent show ?thesis by auto
qed

text \<open>
  C5. For an id that was never opened since \<^verbatim>\<open>Init\<close>, or whose transaction has been
  flushed since it was last opened, \<^verbatim>\<open>AppendSegment\<close> and \<^verbatim>\<open>FlushTransaction\<close> each
  return: the result is the not-found error as a value, not a panic.
\<close>

theorem not_found_is_returned:
  assumes "set opts \<subseteq> range LogFormat \<union> range Hooks' \<union> range DefaultFields"
    and "Init opts w0 = Inr w1"
    and "coordinator_calls cs w1 = Inr (es, w)"
    and "\<not> open_after i False cs"
  shows "(\<exists>w'. AppendSegment i (Some sg) w = Inr (Some (''Transaction '' @ i @ '' not found''), w'))
         \<and> FlushTransaction i w = Inr (Some (''TransactionID '' @ i @ '' not found''), w)"
proof -
  from Init_state [OF assms(1), of w0] assms(2)
  have "mainLogger (coordinatorInstance w1) \<noteq> None"
    and "transactionMap (coordinatorInstance w1) i = None"
    by auto
  with coordinator_calls_state [OF assms(3), of i] assms(4)
  have l: "mainLogger (coordinatorInstance w) \<noteq> None"
    and a: "transactionMap (coordinatorInstance w) i = None"
    by auto
  show ?thesis by (simp add: AppendSegment_absent [OF l a] FlushTransaction_absent [OF a])
qed

theorem not_found_is_returned_witness:
  "set [] \<subseteq> range LogFormat \<union> range Hooks' \<union> range DefaultFields
   \<and> Init [] world_zero = Inr world_init
   \<and> coordinator_calls [Call_NewTransaction ''tx1'', Call_FlushTransaction ''tx1''] world_init
       = Inr ([None, None],
              world_init\<lparr>emitted := [\<lparr>level = InfoLevel, data = [''audit'' \<mapsto> VBool True]\<rparr>]\<rparr>)
   \<and> \<not> open_after ''tx1'' False [Call_NewTransaction ''tx1'', Call_FlushTransaction ''tx1'']
   \<and> \<not> open_after ''tx2'' False [Call_NewTransaction ''tx1'', Call_FlushTransaction ''tx1'']
   \<and> (\<exists>w'. AppendSegment ''tx1'' (Some (SQLSegment_Segment sql_ok))
               (world_init\<lparr>emitted := [\<lparr>level = InfoLevel, data = [''audit'' \<mapsto> VBool True]\<rparr>]\<rparr>)
             = Inr (Some ''Transaction tx1 not found'', w'))
   \<and> FlushTransaction ''tx2''
        (world_init\<lparr>emitted := [\<lparr>level = InfoLevel, data = [''audit'' \<mapsto> VBool True]\<rparr>]\<rparr>)
      = Inr (Some ''TransactionID tx2 not found'',
             world_init\<lparr>emitted := [\<lparr>level = InfoLevel, data = [''audit'' \<mapsto> VBool True]\<rparr>]\<rparr>)"
proof -
  let ?cs = "[Call_NewTransaction ''tx1'', Call_FlushTransaction ''tx1'']"
  let ?w = "world_init\<lparr>emitted := [\<lparr>level = InfoLevel, data = [''audit'' \<mapsto> VBool True]\<rparr>]\<rparr>"
  have h1: "set [] \<subseteq> range LogFormat \<union> range Hooks' \<union> range DefaultFields" by simp
  have h3: "coordinator_calls ?cs world_init = Inr ([None, None], ?w)"
    by (simp add: NewTransaction_world_init FlushTransaction_present [OF world_tx1_registry])
       (simp add: world_tx1_def world_init_def)
  have h4: "\<not> open_after ''tx1'' False ?cs" and h4': "\<not> open_after ''tx2'' False ?cs"
    by simp_all
  from not_found_is_returned [OF h1 Init_world_init h3 h4, of "SQLSegment_Segment sql_ok"]
       not_found_is_returned [OF h1 Init_world_init h3 h4', of "SQLSegment_Segment sql_ok"]
  have "(\<exists>w'. AppendSegment ''tx1'' (Some (SQLSegment_Segment sql_ok)) ?w
             = Inr (Some ''Transaction tx1 not found'', w'))
        \<and> FlushTransaction ''tx2'' ?w = Inr (Some ''TransactionID tx2 not found'', ?w)"
    by simp
  with h1 Init_world_init h3 h4 h4' show ?thesis by auto
qed

section \<open>Opening and flushing\<close>

text \<open>
  C3. For an open transaction, the consolidated entry of \<^verbatim>\<open>FlushTransaction\<close> is at
  error level exactly when the transaction's own logging context has an \<^verbatim>\<open>error\<close>
  field, and at info level otherwise. The segments play no part: the call gives the same
  result whatever the transaction's segment sequence is, and appending a segment, failed
  or not, before the flush leaves the entry as it was.
\<close>

theorem FlushTransaction_severity:
  assumes "transactionMap (coordinatorInstance w) i = Some tx"
  shows "(\<exists>w'. FlushTransaction i w = Inr (None, w')
            \<and> emitted w' = emitted w @
                 [\<lparr>level = (if ''error'' \<in> dom (Data (logger tx)) then ErrorLevel else InfoLevel),
                   data = Data (logger tx)\<rparr>])
         \<and> (\<forall>segs. FlushTransaction i
                (w\<lparr>coordinatorInstance := (coordinatorInstance w)\<lparr>transactionMap :=
                     (transactionMap (coordinatorInstance w))(i \<mapsto> tx\<lparr>segments := segs\<rparr>)\<rparr>\<rparr>)
              = FlushTransaction i w)
         \<and> (\<forall>sg w1. AppendSegment i (Some sg) w = Inr (None, w1) \<longrightarrow>
               (\<exists>w2. FlushTransaction i w1 = Inr (None, w2)
                  \<and> emitted w2 = emitted w1 @
                       [\<lparr>level = (if ''error'' \<in> dom (Data (logger tx)) then ErrorLevel
                                  else InfoLevel),
                         data = Data (logger tx)\<rparr>]))"
proof (intro conjI allI impI)
  show "\<exists>w'. FlushTransaction i w = Inr (None, w')
            \<and> emitted w' = emitted w @
                 [\<lparr>level = (if ''error'' \<in> dom (Data (logger tx)) then ErrorLevel else InfoLevel),
                   data = Data (logger tx)\<rparr>]"
    by (simp add: FlushTransaction_present [OF assms])
next
  fix segs
  let ?w = "w\<lparr>coordinatorInstance := (coordinatorInstance w)\<lparr>transactionMap :=
              (transactionMap (coordinatorInstance w))(i \<mapsto> tx\<lparr>segments := segs\<rparr>)\<rparr>\<rparr>"
  have "transactionMap (coordinatorInstance ?w) i = Some (tx\<lparr>segments := segs\<rparr>)" by simp
  from FlushTransaction_present [OF this] show "FlushTransaction i ?w = FlushTransaction i w"
    by (simp add: FlushTransaction_present [OF assms])
next
  fix sg w1
  assume app: "AppendSegment i (Some sg) w = Inr (None, w1)"
  have l: "mainLogger (coordinatorInstance w) \<noteq> None"
  proof
    assume "mainLogger (coordinatorInstance w) = None"
    from AppendSegment_uninitialised [OF this] app show False by simp
  qed
  from app have "transactionMap (coordinatorInstance w1) i = Some (tx\<lparr>segments := segments tx @ [sg]\<rparr>)"
    by (auto simp: AppendSegment_present [OF l assms])
  from FlushTransaction_present [OF this]
  show "\<exists>w2. FlushTransaction i w1 = Inr (None, w2)
          \<and> emitted w2 = emitted w1 @
               [\<lparr>level = (if ''error'' \<in> dom (Data (logger tx)) then ErrorLevel else InfoLevel),
                 data = Data (logger tx)\<rparr>]"
    by simp
qed

theorem FlushTransaction_severity_witness:
  "transactionMap (coordinatorInstance world_tx1) ''tx1'' =
     Some \<lparr>id' = ''tx1'', logger = \<lparr>Data = [''audit'' \<mapsto> VBool True]\<rparr>, segments = []\<rparr>
   \<and> (\<exists>w1. AppendSegment ''tx1'' (Some (SQLSegment_Segment sql_failed)) world_tx1 = Inr (None, w1)
         \<and> map level (emitted w1) = [ErrorLevel]
         \<and> (\<exists>w2. FlushTransaction ''tx1'' w1 = Inr (None, w2)
               \<and> map level (emitted w2) = [ErrorLevel, InfoLevel]))
   \<and> transactionMap (coordinatorInstance world_degraded) ''tx1'' =
       Some \<lparr>id' = ''tx1'',
             logger = \<lparr>Data = [''error'' \<mapsto> VString ''degraded'', ''audit'' \<mapsto> VBool True]\<rparr>,
             segments = []\<rparr>
   \<and> (\<exists>w'. FlushTransaction ''tx1'' world_degraded = Inr (None, w')
         \<and> map level (emitted w') = [ErrorLevel])"
proof -
  let ?tx = "\<lparr>id' = ''tx1'', logger = \<lparr>Data = [''audit'' \<mapsto> VBool True]\<rparr>, segments = []\<rparr>"
  let ?w1 = "world_tx1\<lparr>emitted := emitted world_tx1 @
             [\<lparr>level = ErrorLevel,
               data = [''segment.type'' \<mapsto> VString ''sql'',
                       ''segment.data'' \<mapsto> VFields (Fields (SQLSegment_Segment sql_failed)),
                       ''audit'' \<mapsto> VBool False] ++ defaultFields (coordinatorInstance world_tx1)\<rparr>],
             coordinatorInstance := (coordinatorInstance world_tx1)\<lparr>transactionMap :=
                (transactionMap (coordinatorInstance world_tx1))
                  (''tx1'' \<mapsto> ?tx\<lparr>segments := segments ?tx @ [SQLSegment_Segment sql_failed]\<rparr>)\<rparr>\<rparr>"
  have app: "AppendSegment ''tx1'' (Some (SQLSegment_Segment sql_failed)) world_tx1 = Inr (None, ?w1)"
    by (simp add: AppendSegment_present [OF world_tx1_logger world_tx1_registry] sql_failed_Segment)
  have lv: "map level (emitted ?w1) = [ErrorLevel]"
    by (simp add: world_tx1_def)
  from FlushTransaction_severity [OF world_tx1_registry] app
  obtain w2 where "FlushTransaction ''tx1'' ?w1 = Inr (None, w2)"
    and "emitted w2 = emitted ?w1 @
           [\<lparr>level = (if ''error'' \<in> dom (Data (logger ?tx)) then ErrorLevel else InfoLevel),
             data = Data (logger ?tx)\<rparr>]"
    by blast
  then have "FlushTransaction ''tx1'' ?w1 = Inr (None, w2)
               \<and> map level (emitted w2) = [ErrorLevel, InfoLevel]"
    by (simp add: world_tx1_def)
  then have "\<exists>w2. FlushTransaction ''tx1'' ?w1 = Inr (None, w2)
               \<and> map level (emitted w2) = [ErrorLevel, InfoLevel]"
    by (rule exI [of _ w2])
  with app lv
  have "AppendSegment ''tx1'' (Some (SQLSegment_Segment sql_failed)) world_tx1 = Inr (None, ?w1)
         \<and> map level (emitted ?w1) = [ErrorLevel]
         \<and> (\<exists>w2. FlushTransaction ''tx1'' ?w1 = Inr (None, w2)
               \<and> map level (emitted w2) = [ErrorLevel, InfoLevel])"
    by (intro conjI)
  then have info: "\<exists>w1. AppendSegment ''tx1'' (Some (SQLSegment_Segment sql_failed)) world_tx1 = Inr (None, w1)
         \<and> map level (emitted w1) = [ErrorLevel]
         \<and> (\<exists>w2. FlushTransaction ''tx1'' w1 = Inr (None, w2)
               \<and> map level (emitted w2) = [ErrorLevel, InfoLevel])"
    by (rule exI [of _ "?w1"])
  from FlushTransaction_severity [OF world_degraded_registry, THEN conjunct1]
  have err: "\<exists>w'. FlushTransaction ''tx1'' world_degraded = Inr (None, w')
         \<and> map level (emitted w') = [ErrorLevel]"
    by (auto simp: world_degraded_def)
  from world_tx1_registry info world_degraded_registry err show ?thesis by (intro conjI)
qed

text \<open>
  C4. \<^verbatim>\<open>NewTransaction\<close> with an id that is in the registry returns the duplicate
  error and changes nothing. With an id that is not in the registry it succeeds, and
  the same call made again at once returns the duplicate error.
\<close>

theorem NewTransaction_duplicate:
  assumes "mainLogger (coordinatorInstance w) \<noteq> None"
  shows "(transactionMap (coordinatorInstance w) i \<noteq> None \<longrightarrow>
            NewTransaction i w =
              Inr (Some (''TransactionID '' @ i @ '' already exists inside transactions map''), w))
         \<and> (transactionMap (coordinatorInstance w) i = None \<longrightarrow>
              (\<exists>w'. NewTransaction i w = Inr (None, w') \<and>
                    NewTransaction i w' =
                      Inr (Some (''TransactionID '' @ i @ '' already exists inside transactions map''),
                           w')))"
proof (intro conjI impI)
  assume "transactionMap (coordinatorInstance w) i \<noteq> None"
  then obtain tx where "transactionMap (coordinatorInstance w) i = Some tx" by auto
  then show "NewTransaction i w =
              Inr (Some (''TransactionID '' @ i @ '' already exists inside transactions map''), w)"
    by (rule NewTransaction_present)
next
  assume absent: "transactionMap (coordinatorInstance w) i = None"
  show "\<exists>w'. NewTransaction i w = Inr (None, w') \<and>
               NewTransaction i w' =
                 Inr (Some (''TransactionID '' @ i @ '' already exists inside transactions map''), w')"
    by (simp add: NewTransaction_absent [OF assms absent] NewTransaction_present)
qed

theorem NewTransaction_duplicate_witness:
  "mainLogger (coordinatorInstance world_init) \<noteq> None
   \<and> transactionMap (coordinatorInstance world_init) ''tx1'' = None
   \<and> NewTransaction ''tx1'' world_init = Inr (None, world_tx1)
   \<and> transactionMap (coordinatorInstance world_tx1) ''tx1'' \<noteq> None
   \<and> NewTransaction ''tx1'' world_tx1 =
       Inr (Some ''TransactionID tx1 already exists inside transactions map'', world_tx1)"
proof -
  have present: "transactionMap (coordinatorInstance world_tx1) ''tx1'' \<noteq> None"
    by (simp add: world_tx1_def)
  from NewTransaction_duplicate [OF world_init_logger, of "''tx1''"]
    world_init_registry [of "''tx1''"]
  obtain w' where first: "NewTransaction ''tx1'' world_init = Inr (None, w')"
    and second: "NewTransaction ''tx1'' w' =
       Inr (Some (''TransactionID '' @ ''tx1'' @ '' already exists inside transactions map''), w')"
    by blast
  from first NewTransaction_world_init have "w' = world_tx1" by simp
  with second
  have "NewTransaction ''tx1'' world_tx1 =
       Inr (Some ''TransactionID tx1 already exists inside transactions map'', world_tx1)"
    by simp
  with world_init_logger world_init_registry [of "''tx1''"] NewTransaction_world_init present
  show ?thesis by (intro conjI)
qed

text \<open>
  C6. A successful \<^verbatim>\<open>FlushTransaction\<close> of an open id removes the id from the registry,
  whatever the level of the entry it emitted: a second \<^verbatim>\<open>FlushTransaction\<close> of the id
  returns the not-found error, and a \<^verbatim>\<open>NewTransaction\<close> of the id succeeds and
  registers a transaction whose segment sequence is empty.
\<close>

theorem FlushTransaction_removes:
  assumes "mainLogger (coordinatorInstance w) \<noteq> None"
    and "transactionMap (coordinatorInstance w) i = Some tx"
  shows "\<exists>w1. FlushTransaction i w = Inr (None, w1)
           \<and> transactionMap (coordinatorInstance w1) i = None
           \<and> FlushTransaction i w1 = Inr (Some (''TransactionID '' @ i @ '' not found''), w1)
           \<and> (\<exists>w2 tx'. NewTransaction i w1 = Inr (None, w2)
                 \<and> transactionMap (coordinatorInstance w2) i = Some tx'
                 \<and> segments tx' = [])"
  using assms(1)
  by (simp add: FlushTransaction_present [OF assms(2)] FlushTransaction_absent
      NewTransaction_absent)

theorem FlushTransaction_removes_witness:
  "mainLogger (coordinatorInstance world_tx1) \<noteq> None
   \<and> transactionMap (coordinatorInstance world_tx1) ''tx1'' =
       Some \<lparr>id' = ''tx1'', logger = \<lparr>Data = [''audit'' \<mapsto> VBool True]\<rparr>, segments = []\<rparr>
   \<and> (\<exists>w1. FlushTransaction ''tx1'' world_tx1 = Inr (None, w1)
         \<and> transactionMap (coordinatorInstance w1) ''tx1'' = None
         \<and> FlushTransaction ''tx1'' w1 = Inr (Some ''TransactionID tx1 not found'', w1)
         \<and> (\<exists>w2 tx'. NewTransaction ''tx1'' w1 = Inr (None, w2)
               \<and> transactionMap (coordinatorInstance w2) ''tx1'' = Some tx'
               \<and> segments tx' = []))"
  using world_tx1_logger world_tx1_registry
    FlushTransaction_removes [OF world_tx1_logger world_tx1_registry]
  by simp

section \<open>The error marker of a segment\<close>

lemma HTTPSegment_call_error:
  assumes "HTTPSegment_call c s = Inr s'"
  shows "if is_HTTP_Failed c then \<exists>m. http_data s' ''error'' = Some (VString m)
         else http_data s' ''error'' = http_data s ''error''"
  using assms
  by (cases c)
     (auto simp: HTTPSegment_Failed_def HTTPSegment_Response_def HTTPSegment_Done_def Let_def
           split: option.splits ReadCloser.splits)

lemma HTTPSegment_calls_error:
  assumes "HTTPSegment_calls cs s = Inr s'"
    and "http_data s ''error'' = None \<or> (\<exists>m. http_data s ''error'' = Some (VString m))"
  shows "if list_ex is_HTTP_Failed cs \<or> http_data s ''error'' \<noteq> None
         then \<exists>m. http_data s' ''error'' = Some (VString m)
         else http_data s' ''error'' = None"
  using assms
proof (induction cs arbitrary: s)
  case Nil
  then show ?case by auto
next
  case (Cons c cs)
  from Cons.prems(1) obtain s1 where c: "HTTPSegment_call c s = Inr s1"
    and cs: "HTTPSegment_calls cs s1 = Inr s'"
    by (auto split: sum.splits)
  note e1 = HTTPSegment_call_error [OF c]
  with Cons.prems(2)
  have ok1: "http_data s1 ''error'' = None \<or> (\<exists>m. http_data s1 ''error'' = Some (VString m))"
    by (auto split: if_splits)
  from Cons.IH [OF cs ok1] e1 show ?case
    by (auto split: if_splits)
qed

lemma NewServerSegment_error: "http_data (snd (NewServerSegment r t)) ''error'' = None"
  by (simp add: NewServerSegment_def Let_def split: ReadCloser.splits)

lemma HTTPSegment_HasFailed_iff:
  assumes "HTTPSegment_calls cs (snd (NewServerSegment r t)) = Inr s"
  shows "HTTPSegment_HasFailed s = list_ex is_HTTP_Failed cs
       \<and> HTTPSegment_HasFailed s = (''error'' \<in> dom (HTTPSegment_Fields s))"
  using HTTPSegment_calls_error [OF assms] NewServerSegment_error [of r t]
  by (auto simp: HTTPSegment_HasFailed_def HTTPSegment_Fields_def split: option.splits if_splits)

lemma ServerSegment_call_error:
  assumes "ServerSegment_call marshal c s = Inr s'"
  shows "if is_Server_Failed c then \<exists>m. server_data s' ''error'' = Some (VString m)
         else server_data s' ''error'' = server_data s ''error''"
  using assms
  by (cases c)
     (auto simp: ServerSegment_Failed_def ServerSegment_JSONResponse_def ServerSegment_Done_def
           Let_def split: option.splits prod.splits)

lemma ServerSegment_calls_error:
  assumes "ServerSegment_calls marshal cs s = Inr s'"
    and "server_data s ''error'' = None \<or> (\<exists>m. server_data s ''error'' = Some (VString m))"
  shows "if list_ex is_Server_Failed cs \<or> server_data s ''error'' \<noteq> None
         then \<exists>m. server_data s' ''error'' = Some (VString m)
         else server_data s' ''error'' = None"
  using assms
proof (induction cs arbitrary: s)
  case Nil
  then show ?case by auto
next
  case (Cons c cs)
  from Cons.prems(1) obtain s1 where c: "ServerSegment_call marshal c s = Inr s1"
    and cs: "ServerSegment_calls marshal cs s1 = Inr s'"
    by (auto split: sum.splits)
  note e1 = ServerSegment_call_error [OF c]
  with Cons.prems(2)
  have ok1: "server_data s1 ''error'' = None \<or> (\<exists>m. server_data s1 ''error'' = Some (VString m))"
    by (auto split: if_splits)
  from Cons.IH [OF cs ok1] e1 show ?case
    by (auto split: if_splits)
qed

lemma http_NewServerSegment_error: "server_data (snd (http_NewServerSegment r t)) ''error'' = None"
  by (simp add: http_NewServerSegment_def Let_def split: ReadCloser.splits)

lemma ServerSegment_HasFailed_iff:
  assumes "ServerSegment_calls marshal cs (snd (http_NewServerSegment r t)) = Inr s"
  shows "ServerSegment_HasFailed s = list_ex is_Server_Failed cs
       \<and> ServerSegment_HasFailed s = (''error'' \<in> dom (ServerSegment_Fields s))"
  using ServerSegment_calls_error [OF assms] http_NewServerSegment_error [of r t]
  by (auto simp: ServerSegment_HasFailed_def ServerSegment_Fields_def
        split: option.splits if_splits)

lemma SQLSegment_call_error:
  assumes "SQLSegment_call c s = Inr s'"
  shows "if is_SQL_Failed c then \<exists>m. sql_data s' ''error'' = Some (VString m)
         else sql_data s' ''error'' = sql_data s ''error''"
  using assms
  by (cases c)
     (auto simp: SQLSegment_Failed_def SQLSegment_ExecResponse_def SQLSegment_QueryResponse_def
           SQLSegment_Done_def split: option.splits prod.splits)

lemma SQLSegment_calls_error:
  assumes "SQLSegment_calls cs s = Inr s'"
    and "sql_data s ''error'' = None \<or> (\<exists>m. sql_data s ''error'' = Some (VString m))"
  shows "if list_ex is_SQL_Failed cs \<or> sql_data s ''error'' \<noteq> None
         then \<exists>m. sql_data s' ''error'' = Some (VString m)
         else sql_data s' ''error'' = None"
  using assms
proof (induction cs arbitrary: s)
  case Nil
  then show ?case by auto
next
  case (Cons c cs)
  from Cons.prems(1) obtain s1 where c: "SQLSegment_call c s = Inr s1"
    and cs: "SQLSegment_calls cs s1 = Inr s'"
    by (auto split: sum.splits)
  note e1 = SQLSegment_call_error [OF c]
  with Cons.prems(2)
  have ok1: "sql_data s1 ''error'' = None \<or> (\<exists>m. sql_data s1 ''error'' = Some (VString m))"
    by (auto split: if_splits)
  from Cons.IH [OF cs ok1] e1 show ?case
    by (auto split: if_splits)
qed

lemma SQLSegment_HasFailed_iff:
  assumes "SQLSegment_calls cs (NewSQLSegment driver statement params t) = Inr s"
  shows "SQLSegment_HasFailed s = list_ex is_SQL_Failed cs
       \<and> SQLSegment_HasFailed s = (''error'' \<in> dom (SQLSegment_Fields s))"
proof -
  have "sql_data (NewSQLSegment driver statement params t) ''error'' = None"
    by (simp add: NewSQLSegment_def)
  with SQLSegment_calls_error [OF assms] show ?thesis
    by (auto simp: SQLSegment_HasFailed_def SQLSegment_Fields_def split: option.splits if_splits)
qed

text \<open>
  C7. Take a segment made by its constructor and any sequence of calls on it that ran
  without a panic. \<^verbatim>\<open>HasFailed()\<close> is true exactly when \<^verbatim>\<open>Failed\<close> is among the calls,
  which is exactly when the key \<^verbatim>\<open>error\<close> is in the field set; and the stand-alone entry
  \<^verbatim>\<open>AppendSegment\<close> emits for the segment is at error level when \<^verbatim>\<open>Failed\<close> is among
  the calls and at info level when it is not. So a segment that had \<^verbatim>\<open>Failed\<close> called
  before \<^verbatim>\<open>Done\<close> reports a failure and is logged as an error, and one that never had
  reports none after \<^verbatim>\<open>Done\<close> and is logged as info. This holds for the three kinds of
  segment.
\<close>

theorem HasFailed_iff_Failed_called:
  assumes "mainLogger (coordinatorInstance w) \<noteq> None"
  shows "(\<forall>s. HTTPSegment_calls hcs (snd (NewServerSegment r t)) = Inr s \<longrightarrow>
            HTTPSegment_HasFailed s = list_ex is_HTTP_Failed hcs
          \<and> HTTPSegment_HasFailed s = (''error'' \<in> dom (HTTPSegment_Fields s))
          \<and> (\<exists>e w'. AppendSegment i (Some (HTTPSegment_Segment s)) w = Inr (e, w')
                \<and> map level (emitted w') = map level (emitted w) @
                     [if list_ex is_HTTP_Failed hcs then ErrorLevel else InfoLevel]))
       \<and> (\<forall>s. ServerSegment_calls marshal scs (snd (http_NewServerSegment r t)) = Inr s \<longrightarrow>
            ServerSegment_HasFailed s = list_ex is_Server_Failed scs
          \<and> ServerSegment_HasFailed s = (''error'' \<in> dom (ServerSegment_Fields s))
          \<and> (\<exists>e w'. AppendSegment i (Some (ServerSegment_Segment s)) w = Inr (e, w')
                \<and> map level (emitted w') = map level (emitted w) @
                     [if list_ex is_Server_Failed scs then ErrorLevel else InfoLevel]))
       \<and> (\<forall>s. SQLSegment_calls qcs (NewSQLSegment driver statement params t) = Inr s \<longrightarrow>
            SQLSegment_HasFailed s = list_ex is_SQL_Failed qcs
          \<and> SQLSegment_HasFailed s = (''error'' \<in> dom (SQLSegment_Fields s))
          \<and> (\<exists>e w'. AppendSegment i (Some (SQLSegment_Segment s)) w = Inr (e, w')
                \<and> map level (emitted w') = map level (emitted w) @
                     [if list_ex is_SQL_Failed qcs then ErrorLevel else InfoLevel]))"
proof (intro conjI allI impI)
  fix s
  assume run: "HTTPSegment_calls hcs (snd (NewServerSegment r t)) = Inr s"
  note iff = HTTPSegment_HasFailed_iff [OF run]
  from iff show "HTTPSegment_HasFailed s = list_ex is_HTTP_Failed hcs" by (rule conjunct1)
  from iff show "HTTPSegment_HasFailed s = (''error'' \<in> dom (HTTPSegment_Fields s))" by (rule conjunct2)
  from iff [THEN conjunct1] AppendSegment_level [OF assms, of i "HTTPSegment_Segment s"]
  show "\<exists>e w'. AppendSegment i (Some (HTTPSegment_Segment s)) w = Inr (e, w')
          \<and> map level (emitted w') = map level (emitted w) @
               [if list_ex is_HTTP_Failed hcs then ErrorLevel else InfoLevel]"
    by (simp add: HTTPSegment_Segment_def)
next
  fix s
  assume run: "ServerSegment_calls marshal scs (snd (http_NewServerSegment r t)) = Inr s"
  note iff = ServerSegment_HasFailed_iff [OF run]
  from iff show "ServerSegment_HasFailed s = list_ex is_Server_Failed scs" by (rule conjunct1)
  from iff show "ServerSegment_HasFailed s = (''error'' \<in> dom (ServerSegment_Fields s))" by (rule conjunct2)
  from iff [THEN conjunct1] AppendSegment_level [OF assms, of i "ServerSegment_Segment s"]
  show "\<exists>e w'. AppendSegment i (Some (ServerSegment_Segment s)) w = Inr (e, w')
          \<and> map level (emitted w') = map level (emitted w) @
               [if list_ex is_Server_Failed scs then ErrorLevel else InfoLevel]"
    by (simp add: ServerSegment_Segment_def)
next
  fix s
  assume run: "SQLSegment_calls qcs (NewSQLSegment driver statement params t) = Inr s"
  note iff = SQLSegment_HasFailed_iff [OF run]
  from iff show "SQLSegment_HasFailed s = list_ex is_SQL_Failed qcs" by (rule conjunct1)
  from iff show "SQLSegment_HasFailed s = (''error'' \<in> dom (SQLSegment_Fields s))" by (rule conjunct2)
  from iff [THEN conjunct1] AppendSegment_level [OF assms, of i "SQLSegment_Segment s"]
  show "\<exists>e w'. AppendSegment i (Some (SQLSegment_Segment s)) w = Inr (e, w')
          \<and> map level (emitted w') = map level (emitted w) @
               [if list_ex is_SQL_Failed qcs then ErrorLevel else InfoLevel]"
    by (simp add: SQLSegment_Segment_def)
qed

theorem HasFailed_iff_Failed_called_witness:
  "mainLogger (coordinatorInstance world_tx1) \<noteq> None
   \<and> (\<exists>s. HTTPSegment_calls [HTTP_Failed (Some ''timeout''), HTTP_Done 5000000]
              (snd (NewServerSegment request_get 0)) = Inr s
         \<and> HTTPSegment_HasFailed s
         \<and> ''error'' \<in> dom (HTTPSegment_Fields s)
         \<and> (\<exists>e w'. AppendSegment ''tx1'' (Some (HTTPSegment_Segment s)) world_tx1 = Inr (e, w')
               \<and> map level (emitted w') = [ErrorLevel]))
   \<and> (\<exists>s. ServerSegment_calls marshal_fails
              [Server_JSONResponse 404 (VString ''not found'') Map.empty, Server_Done 5000000]
              (snd (http_NewServerSegment request_get 0)) = Inr s
         \<and> \<not> ServerSegment_HasFailed s
         \<and> ''error'' \<notin> dom (ServerSegment_Fields s)
         \<and> (\<exists>e w'. AppendSegment ''tx1'' (Some (ServerSegment_Segment s)) world_tx1 = Inr (e, w')
               \<and> map level (emitted w') = [InfoLevel]))
   \<and> (\<exists>s. SQLSegment_calls [SQL_Failed (Some ''connection refused''), SQL_Done 5000000]
              (NewSQLSegment ''postgres'' ''SELECT 1'' Map.empty 0) = Inr s
         \<and> SQLSegment_HasFailed s
         \<and> ''error'' \<in> dom (SQLSegment_Fields s)
         \<and> (\<exists>e w'. AppendSegment ''tx1'' (Some (SQLSegment_Segment s)) world_tx1 = Inr (e, w')
               \<and> map level (emitted w') = [ErrorLevel]))"
proof -
  let ?hcs = "[HTTP_Failed (Some ''timeout''), HTTP_Done 5000000]"
  let ?scs = "[Server_JSONResponse 404 (VString ''not found'') Map.empty, Server_Done 5000000]"
  let ?qcs = "[SQL_Failed (Some ''connection refused''), SQL_Done 5000000]"
  note inst = HasFailed_iff_Failed_called [OF world_tx1_logger, of ?hcs request_get 0 "''tx1''"
      marshal_fails ?scs ?qcs "''postgres''" "''SELECT 1''" Map.empty]
  obtain hs where hs: "HTTPSegment_calls ?hcs (snd (NewServerSegment request_get 0)) = Inr hs"
    by (simp add: HTTPSegment_Failed_def)
  obtain ss where ss: "ServerSegment_calls marshal_fails ?scs
      (snd (http_NewServerSegment request_get 0)) = Inr ss"
    by simp
  have e: "emitted world_tx1 = []" by (simp add: world_tx1_def)
  note h0 = inst [THEN conjunct1, rule_format, OF hs]
  note s0 = inst [THEN conjunct2, THEN conjunct1, rule_format, OF ss]
  note q0 = inst [THEN conjunct2, THEN conjunct2, rule_format, OF sql_failed_calls]
  from h0 e
  have h: "HTTPSegment_HasFailed hs \<and> ''error'' \<in> dom (HTTPSegment_Fields hs)
      \<and> (\<exists>e w'. AppendSegment ''tx1'' (Some (HTTPSegment_Segment hs)) world_tx1 = Inr (e, w')
               \<and> map level (emitted w') = [ErrorLevel])"
    by auto
  from s0 e
  have s: "\<not> ServerSegment_HasFailed ss \<and> ''error'' \<notin> dom (ServerSegment_Fields ss)
      \<and> (\<exists>e w'. AppendSegment ''tx1'' (Some (ServerSegment_Segment ss)) world_tx1 = Inr (e, w')
               \<and> map level (emitted w') = [InfoLevel])"
    by auto
  from q0 e
  have q: "SQLSegment_HasFailed sql_failed \<and> ''error'' \<in> dom (SQLSegment_Fields sql_failed)
      \<and> (\<exists>e w'. AppendSegment ''tx1'' (Some (SQLSegment_Segment sql_failed)) world_tx1 = Inr (e, w')
               \<and> map level (emitted w') = [ErrorLevel])"
    by auto
  from hs h have H: "\<exists>s. HTTPSegment_calls ?hcs (snd (NewServerSegment request_get 0)) = Inr s
         \<and> HTTPSegment_HasFailed s
         \<and> ''error'' \<in> dom (HTTPSegment_Fields s)
         \<and> (\<exists>e w'. AppendSegment ''tx1'' (Some (HTTPSegment_Segment s)) world_tx1 = Inr (e, w')
               \<and> map level (emitted w') = [ErrorLevel])"
    by (intro exI [of _ hs] conjI) simp_all
  from ss s have S: "\<exists>s. ServerSegment_calls marshal_fails ?scs
              (snd (http_NewServerSegment request_get 0)) = Inr s
         \<and> \<not> ServerSegment_HasFailed s
         \<and> ''error'' \<notin> dom (ServerSegment_Fields s)
         \<and> (\<exists>e w'. AppendSegment ''tx1'' (Some (ServerSegment_Segment s)) world_tx1 = Inr (e, w')
               \<and> map level (emitted w') = [InfoLevel])"
    by (intro exI [of _ ss] conjI) simp_all
  from sql_failed_calls q have Q: "\<exists>s. SQLSegment_calls ?qcs
              (NewSQLSegment ''postgres'' ''SELECT 1'' Map.empty 0) = Inr s
         \<and> SQLSegment_HasFailed s
         \<and> ''error'' \<in> dom (SQLSegment_Fields s)
         \<and> (\<exists>e w'. AppendSegment ''tx1'' (Some (SQLSegment_Segment s)) world_tx1 = Inr (e, w')
               \<and> map level (emitted w') = [ErrorLevel])"
    by (intro exI [of _ sql_failed] conjI) simp_all
  from world_tx1_logger H S Q show ?thesis by (intro conjI)
qed

section \<open>Done\<close>

lemma time_Since_bounds:
  "t \<le> now \<Longrightarrow> 0 \<le> time_Since t now \<and> time_Since t now \<le> maxDuration"
  by (auto simp: time_Since_def maxDuration_def minDuration_def)

lemma sdiv_Millisecond: "0 \<le> d \<Longrightarrow> d sdiv Millisecond = d div 1000000"
  by (cases "d = 0") (simp_all add: signed_divide_int_def Millisecond_def)

lemma go_int_id: "0 \<le> n \<Longrightarrow> n \<le> maxDuration \<Longrightarrow> go_int n = n"
  by (simp add: go_int_def maxDuration_def)

lemma elapsed_ms_eq:
  assumes "t \<le> now"
  shows "elapsed_ms t now = time_Since t now div 1000000"
proof -
  let ?d = "time_Since t now"
  from time_Since_bounds [OF assms] have d: "0 \<le> ?d" "?d \<le> maxDuration" by auto
  have q: "?d sdiv Millisecond = ?d div 1000000" using d(1) by (rule sdiv_Millisecond)
  have lo: "0 \<le> ?d div 1000000" using d(1) by simp
  have "?d div 1000000 \<le> ?d" using d(1) zdiv_mono2 [of "?d" 1 1000000] by simp
  with d(2) have hi: "?d div 1000000 \<le> maxDuration" by simp
  from go_int_id [OF lo hi] q show ?thesis by (simp add: elapsed_ms_def)
qed

lemma elapsed_ms_nonneg:
  assumes "t \<le> now"
  shows "0 \<le> elapsed_ms t now"
proof -
  from time_Since_bounds [OF assms] have "0 \<le> time_Since t now" by simp
  then have "0 \<le> time_Since t now div 1000000" by simp
  with elapsed_ms_eq [OF assms] show ?thesis by simp
qed

lemma HTTPSegment_Done_data:
  "http_data (HTTPSegment_Done s now) =
     (http_data s)
       (''elapsed_ms'' \<mapsto> VInt (elapsed_ms (http_start s) now),
        ''status_code'' \<mapsto>
           (case http_data s ''status_code'' of None \<Rightarrow> VInt StatusOK | Some v \<Rightarrow> v))"
  by (auto simp: HTTPSegment_Done_def Let_def fun_eq_iff split: option.splits)

lemma ServerSegment_Done_data:
  "server_data (ServerSegment_Done s now) =
     (server_data s)
       (''elapsed_ms'' \<mapsto> VInt (elapsed_ms (server_start s) now),
        ''status_code'' \<mapsto>
           (case server_data s ''status_code'' of None \<Rightarrow> VInt StatusOK | Some v \<Rightarrow> v))"
  by (auto simp: ServerSegment_Done_def Let_def fun_eq_iff split: option.splits)

lemma SQLSegment_Done_data:
  "sql_data (SQLSegment_Done s now) =
     (sql_data s)(''elapsed_ms'' \<mapsto> VInt (elapsed_ms (sql_start s) now))"
  by (simp add: SQLSegment_Done_def)

text \<open>
  C8. \<^verbatim>\<open>Done\<close> sets \<^verbatim>\<open>elapsed_ms\<close>, and with a clock reading that is not before the
  segment's start the value is at least 0. On the two HTTP segments \<^verbatim>\<open>Done\<close> sets
  \<^verbatim>\<open>status_code\<close> to 200 when the key is not in the field set and leaves the value
  alone when it is: after \<^verbatim>\<open>Failed\<close> it stays 500, after \<^verbatim>\<open>Response\<close> or
  \<^verbatim>\<open>JSONResponse\<close> it stays the response's code, and on a segment fresh from its
  constructor it becomes 200. On an SQL segment \<^verbatim>\<open>Done\<close> does not touch
  \<^verbatim>\<open>status_code\<close>.
\<close>

theorem Done_elapsed_and_status:
  assumes "http_start hs \<le> now" and "server_start ss \<le> now" and "sql_start qs \<le> now"
  shows "(http_data (HTTPSegment_Done hs now) ''elapsed_ms''
            = Some (VInt (elapsed_ms (http_start hs) now))
          \<and> 0 \<le> elapsed_ms (http_start hs) now
          \<and> http_data (HTTPSegment_Done hs now) ''status_code''
              = (case http_data hs ''status_code'' of
                   None \<Rightarrow> Some (VInt StatusOK) | Some v \<Rightarrow> Some v)
          \<and> (\<forall>err s. HTTPSegment_Failed hs err = Inr s \<longrightarrow>
                http_data (HTTPSegment_Done s now) ''status_code''
                  = Some (VInt StatusInternalServerError))
          \<and> (\<forall>res. http_data (HTTPSegment_Done (snd (HTTPSegment_Response hs res)) now)
                       ''status_code'' = Some (VInt (StatusCode res)))
          \<and> (\<forall>r. http_data (HTTPSegment_Done (snd (NewServerSegment r (http_start hs))) now)
                     ''status_code'' = Some (VInt StatusOK)))
       \<and> (server_data (ServerSegment_Done ss now) ''elapsed_ms''
            = Some (VInt (elapsed_ms (server_start ss) now))
          \<and> 0 \<le> elapsed_ms (server_start ss) now
          \<and> server_data (ServerSegment_Done ss now) ''status_code''
              = (case server_data ss ''status_code'' of
                   None \<Rightarrow> Some (VInt StatusOK) | Some v \<Rightarrow> Some v)
          \<and> (\<forall>err s. ServerSegment_Failed ss err = Inr s \<longrightarrow>
                server_data (ServerSegment_Done s now) ''status_code''
                  = Some (VInt StatusInternalServerError))
          \<and> (\<forall>marshal statusCode body headers.
                server_data (ServerSegment_Done
                    (ServerSegment_JSONResponse marshal ss statusCode body headers) now)
                  ''status_code'' = Some (VInt statusCode))
          \<and> (\<forall>r. server_data
                     (ServerSegment_Done (snd (http_NewServerSegment r (server_start ss))) now)
                     ''status_code'' = Some (VInt StatusOK)))
       \<and> (sql_data (SQLSegment_Done qs now) ''elapsed_ms''
            = Some (VInt (elapsed_ms (sql_start qs) now))
          \<and> 0 \<le> elapsed_ms (sql_start qs) now
          \<and> sql_data (SQLSegment_Done qs now) ''status_code'' = sql_data qs ''status_code'')"
proof (intro conjI allI impI)
  show "0 \<le> elapsed_ms (http_start hs) now" by (rule elapsed_ms_nonneg [OF assms(1)])
  show "0 \<le> elapsed_ms (server_start ss) now" by (rule elapsed_ms_nonneg [OF assms(2)])
  show "0 \<le> elapsed_ms (sql_start qs) now" by (rule elapsed_ms_nonneg [OF assms(3)])
  show "http_data (HTTPSegment_Done hs now) ''elapsed_ms''
          = Some (VInt (elapsed_ms (http_start hs) now))"
    by (simp add: HTTPSegment_Done_data)
  show "http_data (HTTPSegment_Done hs now) ''status_code''
          = (case http_data hs ''status_code'' of
               None \<Rightarrow> Some (VInt StatusOK) | Some v \<Rightarrow> Some v)"
    by (simp add: HTTPSegment_Done_data split: option.splits)
  show "server_data (ServerSegment_Done ss now) ''elapsed_ms''
          = Some (VInt (elapsed_ms (server_start ss) now))"
    by (simp add: ServerSegment_Done_data)
  show "server_data (ServerSegment_Done ss now) ''status_code''
          = (case server_data ss ''status_code'' of
               None \<Rightarrow> Some (VInt StatusOK) | Some v \<Rightarrow> Some v)"
    by (simp add: ServerSegment_Done_data split: option.splits)
  show "sql_data (SQLSegment_Done qs now) ''elapsed_ms''
          = Some (VInt (elapsed_ms (sql_start qs) now))"
    by (simp add: SQLSegment_Done_data)
  show "sql_data (SQLSegment_Done qs now) ''status_code'' = sql_data qs ''status_code''"
    by (simp add: SQLSegment_Done_data)
next
  fix err s
  assume "HTTPSegment_Failed hs err = Inr s"
  then show "http_data (HTTPSegment_Done s now) ''status_code''
               = Some (VInt StatusInternalServerError)"
    by (auto simp: HTTPSegment_Done_data HTTPSegment_Failed_def split: option.splits)
next
  fix res
  show "http_data (HTTPSegment_Done (snd (HTTPSegment_Response hs res)) now) ''status_code''
          = Some (VInt (StatusCode res))"
    by (simp add: HTTPSegment_Done_data HTTPSegment_Response_def Let_def
          split: ReadCloser.splits)
next
  fix r
  show "http_data (HTTPSegment_Done (snd (NewServerSegment r (http_start hs))) now)
          ''status_code'' = Some (VInt StatusOK)"
    by (simp add: HTTPSegment_Done_data NewServerSegment_def Let_def split: ReadCloser.splits)
next
  fix err s
  assume "ServerSegment_Failed ss err = Inr s"
  then show "server_data (ServerSegment_Done s now) ''status_code''
               = Some (VInt StatusInternalServerError)"
    by (auto simp: ServerSegment_Done_data ServerSegment_Failed_def split: option.splits)
next
  fix marshal statusCode body headers
  show "server_data (ServerSegment_Done
            (ServerSegment_JSONResponse marshal ss statusCode body headers) now)
          ''status_code'' = Some (VInt statusCode)"
    by (simp add: ServerSegment_Done_data ServerSegment_JSONResponse_def Let_def
          split: prod.splits option.splits)
next
  fix r
  show "server_data (ServerSegment_Done (snd (http_NewServerSegment r (server_start ss))) now)
          ''status_code'' = Some (VInt StatusOK)"
    by (simp add: ServerSegment_Done_data http_NewServerSegment_def Let_def
          split: ReadCloser.splits)
qed

theorem Done_elapsed_and_status_witness:
  "http_start (snd (NewServerSegment request_get 0)) \<le> 5000000
   \<and> server_start (snd (http_NewServerSegment request_get 0)) \<le> 5000000
   \<and> sql_start (NewSQLSegment ''postgres'' ''SELECT 1'' Map.empty 0) \<le> 5000000
   \<and> http_data (HTTPSegment_Done (snd (NewServerSegment request_get 0)) 5000000) ''elapsed_ms''
       = Some (VInt 5)
   \<and> http_data (HTTPSegment_Done (snd (NewServerSegment request_get 0)) 5000000) ''status_code''
       = Some (VInt 200)
   \<and> (\<exists>s. HTTPSegment_Failed (snd (NewServerSegment request_get 0)) (Some ''timeout'') = Inr s
         \<and> http_data (HTTPSegment_Done s 5000000) ''status_code'' = Some (VInt 500))
   \<and> (\<exists>s. ServerSegment_Failed (snd (http_NewServerSegment request_get 0)) (Some ''timeout'')
              = Inr s
         \<and> server_data (ServerSegment_Done s 5000000) ''status_code'' = Some (VInt 500))
   \<and> server_data (ServerSegment_Done
         (ServerSegment_JSONResponse marshal_fails (snd (http_NewServerSegment request_get 0))
            404 (VString ''not found'') Map.empty) 5000000) ''status_code''
       = Some (VInt 404)
   \<and> sql_data (SQLSegment_Done (NewSQLSegment ''postgres'' ''SELECT 1'' Map.empty 0) 5000000)
         ''elapsed_ms'' = Some (VInt 5)
   \<and> sql_data (SQLSegment_Done (NewSQLSegment ''postgres'' ''SELECT 1'' Map.empty 0) 5000000)
         ''status_code'' = None"
proof -
  let ?hs = "snd (NewServerSegment request_get 0)"
  let ?ss = "snd (http_NewServerSegment request_get 0)"
  let ?qs = "NewSQLSegment ''postgres'' ''SELECT 1'' Map.empty 0"
  have hs: "http_start ?hs = 0" and hsc: "http_data ?hs ''status_code'' = None"
    by (simp_all add: NewServerSegment_def request_get_def)
  have ss: "server_start ?ss = 0"
    by (simp add: http_NewServerSegment_def request_get_def)
  have qs: "sql_start ?qs = 0" and qsc: "sql_data ?qs ''status_code'' = None"
    by (simp_all add: NewSQLSegment_def)
  have h1: "http_start ?hs \<le> 5000000" by (simp add: hs)
  have h2: "server_start ?ss \<le> 5000000" by (simp add: ss)
  have h3: "sql_start ?qs \<le> 5000000" by (simp add: qs)
  note inst = Done_elapsed_and_status [OF h1 h2 h3]
  note A = inst [THEN conjunct1]
  note B = inst [THEN conjunct2, THEN conjunct1]
  note C = inst [THEN conjunct2, THEN conjunct2]
  obtain hf where hf: "HTTPSegment_Failed ?hs (Some ''timeout'') = Inr hf"
    by (simp add: HTTPSegment_Failed_def)
  obtain sf where sf: "ServerSegment_Failed ?ss (Some ''timeout'') = Inr sf"
    by (simp add: ServerSegment_Failed_def)
  from A [THEN conjunct1]
  have a1: "http_data (HTTPSegment_Done ?hs 5000000) ''elapsed_ms'' = Some (VInt 5)"
    by (simp add: hs elapsed_ms_example)
  from A [THEN conjunct2, THEN conjunct2, THEN conjunct1]
  have a3: "http_data (HTTPSegment_Done ?hs 5000000) ''status_code'' = Some (VInt 200)"
    by (simp add: hsc StatusOK_def)
  from A [THEN conjunct2, THEN conjunct2, THEN conjunct2, THEN conjunct1, rule_format, OF hf]
  have "http_data (HTTPSegment_Done hf 5000000) ''status_code'' = Some (VInt 500)"
    by (simp add: StatusInternalServerError_def)
  with hf have a4: "\<exists>s. HTTPSegment_Failed ?hs (Some ''timeout'') = Inr s
         \<and> http_data (HTTPSegment_Done s 5000000) ''status_code'' = Some (VInt 500)"
    by (intro exI [of _ hf] conjI)
  from B [THEN conjunct2, THEN conjunct2, THEN conjunct2, THEN conjunct1, rule_format, OF sf]
  have "server_data (ServerSegment_Done sf 5000000) ''status_code'' = Some (VInt 500)"
    by (simp add: StatusInternalServerError_def)
  with sf have b4: "\<exists>s. ServerSegment_Failed ?ss (Some ''timeout'') = Inr s
         \<and> server_data (ServerSegment_Done s 5000000) ''status_code'' = Some (VInt 500)"
    by (intro exI [of _ sf] conjI)
  from B [THEN conjunct2, THEN conjunct2, THEN conjunct2, THEN conjunct2, THEN conjunct1,
          rule_format, of marshal_fails 404 "VString ''not found''" Map.empty]
  have b5: "server_data (ServerSegment_Done
         (ServerSegment_JSONResponse marshal_fails ?ss 404 (VString ''not found'') Map.empty)
           5000000) ''status_code'' = Some (VInt 404)"
    by simp
  from C [THEN conjunct1]
  have c1: "sql_data (SQLSegment_Done ?qs 5000000) ''elapsed_ms'' = Some (VInt 5)"
    by (simp add: qs elapsed_ms_example)
  from C [THEN conjunct2, THEN conjunct2]
  have c3: "sql_data (SQLSegment_Done ?qs 5000000) ''status_code'' = None"
    by (simp add: qsc)
  from h1 h2 h3 a1 a3 a4 b4 b5 c1 c3 show ?thesis by (intro conjI)
qed

section \<open>Appends made one after the other\<close>

text \<open>
  Appending a list of segments to an open transaction by one caller, one call after the
  other: every call succeeds, each emits one entry, and the transaction's sequence grows
  by exactly these segments in the order of the calls.
\<close>

lemma AppendSegment_sequence:
  assumes "mainLogger (coordinatorInstance w) \<noteq> None"
    and "transactionMap (coordinatorInstance w) i = Some tx"
  shows "\<exists>w' tx'. coordinator_calls (map (\<lambda>sg. Call_AppendSegment i (Some sg)) sgs) w
                    = Inr (replicate (length sgs) None, w')
           \<and> transactionMap (coordinatorInstance w') i = Some tx'
           \<and> segments tx' = segments tx @ sgs
           \<and> length (emitted w') = length (emitted w) + length sgs"
  using assms
proof (induction sgs arbitrary: w tx)
  case Nil
  then show ?case by simp
next
  case (Cons sg sgs)
  let ?tx1 = "tx\<lparr>segments := segments tx @ [sg]\<rparr>"
  let ?w1 = "w\<lparr>emitted := emitted w @
             [\<lparr>level = (if HasFailed sg then ErrorLevel else InfoLevel),
               data = [''segment.type'' \<mapsto> VString (Type sg),
                       ''segment.data'' \<mapsto> VFields (Fields sg),
                       ''audit'' \<mapsto> VBool False] ++ defaultFields (coordinatorInstance w)\<rparr>],
             coordinatorInstance := (coordinatorInstance w)\<lparr>transactionMap :=
                (transactionMap (coordinatorInstance w))(i \<mapsto> ?tx1)\<rparr>\<rparr>"
  have step: "AppendSegment i (Some sg) w = Inr (None, ?w1)"
    by (rule AppendSegment_present [OF Cons.prems])
  have l1: "mainLogger (coordinatorInstance ?w1) \<noteq> None" using Cons.prems(1) by simp
  have r1: "transactionMap (coordinatorInstance ?w1) i = Some ?tx1" by simp
  from Cons.IH [OF l1 r1] obtain w' tx' where
    rest: "coordinator_calls (map (\<lambda>sg. Call_AppendSegment i (Some sg)) sgs) ?w1
             = Inr (replicate (length sgs) None, w')"
    and tx': "transactionMap (coordinatorInstance w') i = Some tx'"
    and segs: "segments tx' = segments ?tx1 @ sgs"
    and len: "length (emitted w') = length (emitted ?w1) + length sgs"
    by blast
  from step rest
  have "coordinator_calls (map (\<lambda>sg. Call_AppendSegment i (Some sg)) (sg # sgs)) w
          = Inr (replicate (length (sg # sgs)) None, w')"
    by simp
  moreover from segs have "segments tx' = segments tx @ sg # sgs" by simp
  moreover from len have "length (emitted w') = length (emitted w) + length (sg # sgs)" by simp
  ultimately show ?case using tx' by blast
qed

end
